theory Spec2Isabelle
  imports Main "HOL-Library.AList" "HOL-Library.Sublist"
begin

section \<open>Python values, dictionaries and exceptions\<close>

text \<open>
  The client of \<^verbatim>\<open>fcm/firebase_messaging.py\<close> handles dynamically typed values: the keyword
  arguments of a send call and the decoded JSON document of the provider. They are modelled
  by the tree type \<open>pyval\<close>: \<open>None\<close>, booleans, unbounded integers, strings, lists,
  tuples and dictionaries with string keys (the keys of keyword arguments and of decoded
  JSON objects are strings). Floating-point numbers, byte strings, sets and user-defined
  objects are left out.
  A dictionary is an association list in insertion order with distinct keys, as a Python
  (3.7 or later) \<^verbatim>\<open>dict\<close> is.
\<close>

datatype pyval =
    PNone
  | PBool bool
  | PInt int
  | PStr string
  | PList "pyval list"
  | PTuple "pyval list"
  | PDict "(string \<times> pyval) list"

type_synonym pydict = "(string \<times> pyval) list"

text \<open>
  The exception classes of the module (each carries its message), the built-in exceptions
  the code can raise, and the exceptions of the transport library.
\<close>

datatype exn =
    FCMTooManyRegIdsException string
  | FCMMalformedJsonException string
  | FCMAuthenticationException string
  | FCMInternalException string
  | TypeError
  | KeyError string
  | AttributeError
  | ValueError
  | RequestException string

definition keys :: "('k \<times> 'v) list \<Rightarrow> 'k list" where
  "keys d = map fst d"

text \<open>\<^verbatim>\<open>bool(v)\<close>: the truth value of a Python value.\<close>

fun truthy :: "pyval \<Rightarrow> bool" where
  "truthy PNone = False"
| "truthy (PBool b) = b"
| "truthy (PInt i) = (i \<noteq> 0)"
| "truthy (PStr s) = (s \<noteq> [])"
| "truthy (PList xs) = (xs \<noteq> [])"
| "truthy (PTuple xs) = (xs \<noteq> [])"
| "truthy (PDict d) = (d \<noteq> [])"

text \<open>\<^verbatim>\<open>len(v)\<close>; \<^verbatim>\<open>None\<close>, booleans and integers have no length.\<close>

fun py_len :: "pyval \<Rightarrow> exn + nat" where
  "py_len (PStr s) = Inr (length s)"
| "py_len (PList xs) = Inr (length xs)"
| "py_len (PTuple xs) = Inr (length xs)"
| "py_len (PDict d) = Inr (length d)"
| "py_len _ = Inl TypeError"

text \<open>\<^verbatim>\<open>iter(v)\<close>, as \<^verbatim>\<open>zip\<close> calls it: the elements of a list or tuple, the characters
  of a string, the keys of a dictionary.\<close>

fun py_iter :: "pyval \<Rightarrow> exn + pyval list" where
  "py_iter (PList xs) = Inr xs"
| "py_iter (PTuple xs) = Inr xs"
| "py_iter (PStr s) = Inr (map (\<lambda>c. PStr [c]) s)"
| "py_iter (PDict d) = Inr (map (\<lambda>(k, v). PStr k) d)"
| "py_iter _ = Inl TypeError"

text \<open>\<^verbatim>\<open>obj[key]\<close> for a string key: only a dictionary can be subscripted by a string.\<close>

fun subscript :: "pyval \<Rightarrow> string \<Rightarrow> exn + pyval" where
  "subscript (PDict d) k = (case map_of d k of None \<Rightarrow> Inl (KeyError k) | Some v \<Rightarrow> Inr v)"
| "subscript _ k = Inl TypeError"

text \<open>\<^verbatim>\<open>key in obj\<close> for a string key: key membership in a dictionary, element membership
  in a list or tuple, substring test in a string.\<close>

fun contains :: "string \<Rightarrow> pyval \<Rightarrow> exn + bool" where
  "contains k (PDict d) = Inr (k \<in> set (keys d))"
| "contains k (PList xs) = Inr (PStr k \<in> set xs)"
| "contains k (PTuple xs) = Inr (PStr k \<in> set xs)"
| "contains k (PStr s) = Inr (sublist k s)"
| "contains k _ = Inl TypeError"

text \<open>
  Keys of the dictionaries built during reconciliation are arbitrary values. Lists and
  dictionaries are unhashable, and a tuple is hashable when its elements are;
  \<^verbatim>\<open>True\<close> and \<^verbatim>\<open>1\<close> (and \<^verbatim>\<open>False\<close> and \<^verbatim>\<open>0\<close>) are the same key, also inside tuples.
\<close>

fun hashable :: "pyval \<Rightarrow> bool" where
  "hashable (PList xs) = False"
| "hashable (PDict d) = False"
| "hashable (PTuple xs) = (\<forall>x \<in> set xs. hashable x)"
| "hashable _ = True"

fun key_norm :: "pyval \<Rightarrow> pyval" where
  "key_norm (PBool b) = PInt (if b then 1 else 0)"
| "key_norm (PTuple xs) = PTuple (map key_norm xs)"
| "key_norm v = v"

definition key_eq :: "pyval \<Rightarrow> pyval \<Rightarrow> bool" where
  "key_eq a b = (key_norm a = key_norm b)"

text \<open>\<^verbatim>\<open>d[k] = v\<close> on a dictionary with value keys: an existing key keeps its place.\<close>

fun assign :: "pyval \<Rightarrow> 'v \<Rightarrow> (pyval \<times> 'v) list \<Rightarrow> (pyval \<times> 'v) list" where
  "assign k v [] = [(k, v)]"
| "assign k v ((k', v') # d) =
     (if key_eq k' k then (k', v) # d else (k', v') # assign k v d)"

text \<open>\<^verbatim>\<open>grouping[v].append(k)\<close> on a \<^verbatim>\<open>defaultdict(list)\<close>.\<close>

fun append_to :: "pyval \<Rightarrow> pyval \<Rightarrow> (pyval \<times> pyval list) list \<Rightarrow> (pyval \<times> pyval list) list" where
  "append_to v k [] = [(v, [k])]"
| "append_to v k ((v', ks) # g) =
     (if key_eq v' v then (v', ks @ [k]) # g else (v', ks) # append_to v k g)"

section \<open>Payload builder\<close>

text \<open>
  \<^verbatim>\<open>json.dumps\<close> with its default arguments, on the values of \<open>pyval\<close> (on which it never
  raises): separators \<^verbatim>\<open>", "\<close> and \<^verbatim>\<open>": "\<close>, \<^verbatim>\<open>ensure_ascii\<close>. A tuple is written as
  an array, like a list.
\<close>

definition hex_digit :: "nat \<Rightarrow> char" where
  "hex_digit n = ''0123456789abcdef'' ! n"

fun escape_char :: "char \<Rightarrow> string" where
  "escape_char c =
     (if c = CHR 0x22 then [CHR 0x5C, CHR 0x22]
      else if c = CHR 0x5C then [CHR 0x5C, CHR 0x5C]
      else if c = CHR 0x0A then [CHR 0x5C, CHR ''n'']
      else if c = CHR 0x0D then [CHR 0x5C, CHR ''r'']
      else if c = CHR 0x09 then [CHR 0x5C, CHR ''t'']
      else if c = CHR 0x08 then [CHR 0x5C, CHR ''b'']
      else if c = CHR 0x0C then [CHR 0x5C, CHR ''f'']
      else if of_char c < (0x20::nat) \<or> (0x7E::nat) < of_char c
        then [CHR 0x5C, CHR ''u'', CHR ''0'', CHR ''0'',
              hex_digit (of_char c div 16), hex_digit (of_char c mod 16)]
      else [c])"

definition dumps_str :: "string \<Rightarrow> string" where
  "dumps_str s = [CHR 0x22] @ concat (map escape_char s) @ [CHR 0x22]"

fun digits :: "nat \<Rightarrow> string" where
  "digits n = (if n < 10 then [''0123456789'' ! n]
               else digits (n div 10) @ [''0123456789'' ! (n mod 10)])"

definition dumps_int :: "int \<Rightarrow> string" where
  "dumps_int i = (if i < 0 then CHR ''-'' # digits (nat (- i)) else digits (nat i))"

fun join :: "string \<Rightarrow> string list \<Rightarrow> string" where
  "join sep [] = []"
| "join sep [x] = x"
| "join sep (x # y # xs) = x @ sep @ join sep (y # xs)"

fun json_dumps :: "pyval \<Rightarrow> string" where
  "json_dumps PNone = ''null''"
| "json_dumps (PBool b) = (if b then ''true'' else ''false'')"
| "json_dumps (PInt i) = dumps_int i"
| "json_dumps (PStr s) = dumps_str s"
| "json_dumps (PList xs) = ''['' @ join '', '' (map json_dumps xs) @ '']''"
| "json_dumps (PTuple xs) = ''['' @ join '', '' (map json_dumps xs) @ '']''"
| "json_dumps (PDict d) =
     ''{'' @ join '', '' (map (\<lambda>(k, v). dumps_str k @ '': '' @ json_dumps v) d) @ ''}''"

text \<open>
  A payload object is its \<^verbatim>\<open>__dict__\<close>; the body is JSON text or a flat dictionary for
  form encoding.
\<close>

datatype payload = JsonText string | FormFields pydict

definition validate_registration_ids :: "pyval \<Rightarrow> exn + unit" where
  "validate_registration_ids registration_ids =
     (case py_len registration_ids of
        Inl e \<Rightarrow> Inl e
      | Inr n \<Rightarrow>
          if n > 1000
          then Inl (FCMTooManyRegIdsException
                 ''Exceded number of reigstration ids. Only 1000 per request allowed'')
          else Inr ())"

text \<open>
  \<^verbatim>\<open>Payload.validate\<close>: the loop over the options looks up a method \<^verbatim>\<open>validate_<key>\<close>;
  the class has one, for \<^verbatim>\<open>registration_ids\<close>.
\<close>

fun validate :: "pydict \<Rightarrow> exn + unit" where
  "validate [] = Inr ()"
| "validate ((key, val) # options) =
     (if key = ''registration_ids''
      then (case validate_registration_ids val of
              Inl e \<Rightarrow> Inl e
            | Inr u \<Rightarrow> validate options)
      else validate options)"

text \<open>\<^verbatim>\<open>Payload.__init__\<close>: validation, then the options become the object's dictionary.\<close>

definition Payload_init :: "pydict \<Rightarrow> exn + pydict" where
  "Payload_init kwargs = (case validate kwargs of Inl e \<Rightarrow> Inl e | Inr u \<Rightarrow> Inr kwargs)"

definition JsonPayload_body :: "pydict \<Rightarrow> string" where
  "JsonPayload_body dict = json_dumps (PDict dict)"

text \<open>\<^verbatim>\<open>dict.pop(key, None)\<close> and \<^verbatim>\<open>dict.pop(key)\<close>.\<close>

definition pop_default :: "pydict \<Rightarrow> string \<Rightarrow> pyval \<times> pydict" where
  "pop_default d k =
     (case map_of d k of None \<Rightarrow> (PNone, d) | Some v \<Rightarrow> (v, AList.delete k d))"

definition pop :: "pydict \<Rightarrow> string \<Rightarrow> exn + pyval \<times> pydict" where
  "pop d k =
     (case map_of d k of None \<Rightarrow> Inl (KeyError k) | Some v \<Rightarrow> Inr (v, AList.delete k d))"

text \<open>\<^verbatim>\<open>data.items()\<close>: only a dictionary has the method.\<close>

fun items :: "pyval \<Rightarrow> exn + pydict" where
  "items (PDict d) = Inr d"
| "items _ = Inl AttributeError"

definition PlainTextPayload_body :: "pydict \<Rightarrow> exn + pydict" where
  "PlainTextPayload_body dict =
     (let d1 = (if ''registration_ids'' \<notin> set (keys dict)
                then (case pop_default dict ''registration_ids'' of
                        (v, d') \<Rightarrow> AList.update ''registration_ids'' v d')
                else dict)
      in case pop d1 ''data'' of
           Inl e \<Rightarrow> Inl e
         | Inr (data, d2) \<Rightarrow>
             (case items data of
                Inl e \<Rightarrow> Inl e
              | Inr kvs \<Rightarrow>
                  Inr (fold (\<lambda>(key, val) d. AList.update (''data.'' @ key) val d) kvs d2)))"

text \<open>
  \<^verbatim>\<open>createPayLoad\<close>: the mode flag \<^verbatim>\<open>is_json\<close> travels among the keyword arguments and is
  popped from them (default \<^verbatim>\<open>True\<close>).
\<close>

definition createPayLoad :: "pydict \<Rightarrow> exn + payload" where
  "createPayLoad kwargs =
     (let is_json = (case map_of kwargs ''is_json'' of None \<Rightarrow> PBool True | Some v \<Rightarrow> v);
          kwargs' = AList.delete ''is_json'' kwargs
      in if truthy is_json
         then (case Payload_init kwargs' of
                 Inl e \<Rightarrow> Inl e
               | Inr dict \<Rightarrow> Inr (JsonText (JsonPayload_body dict)))
         else (case Payload_init kwargs' of
                 Inl e \<Rightarrow> Inl e
               | Inr dict \<Rightarrow>
                   (case PlainTextPayload_body dict of
                      Inl e \<Rightarrow> Inl e
                    | Inr body \<Rightarrow> Inr (FormFields body))))"

section \<open>Transport\<close>

text \<open>
  The client object holds the endpoint, the API key and the timeout. Debug logging only
  writes fixed messages to a logger and has no effect on control flow or results; it is
  left out.
\<close>

definition FCM_SERVER :: string where
  "FCM_SERVER = ''https://fcm.googleapis.com/fcm/send''"

record FirebaseMessaging =
  url :: string
  api_key :: string
  timeout :: "int option"

definition FirebaseMessaging_init :: "string \<Rightarrow> int option \<Rightarrow> FirebaseMessaging" where
  "FirebaseMessaging_init key tmo = \<lparr>url = FCM_SERVER, api_key = key, timeout = tmo\<rparr>"

text \<open>
  The arguments of one \<^verbatim>\<open>requests.post\<close> call, and the response object it returns:
  the status code, the raw body, and what \<^verbatim>\<open>response.json()\<close> gives (the decoded document,
  or the exception of the decoder). The network is a parameter \<open>post\<close> of the operations;
  each operation returns, next to its outcome, the list of POST calls it issued.
\<close>

record post_args =
  post_url :: string
  post_data :: payload
  post_headers :: "(string \<times> string) list"
  post_timeout :: "int option"

record response =
  status_code :: int
  content :: string
  json :: "exn + pyval"

type_synonym transport = "post_args \<Rightarrow> exn + response"

datatype reply = Decoded pyval | Raw string

definition makeRequest ::
  "FirebaseMessaging \<Rightarrow> transport \<Rightarrow> payload \<Rightarrow> bool \<Rightarrow> (exn + reply) \<times> post_args list" where
  "makeRequest self post payload is_json =
     (let headers =
            [(''Authorization'', ''key='' @ api_key self),
             (''Content-type'',
                if is_json then ''application/json''
                else ''application/x-www-form-urlencoded;charset=UTF-8'')];
          args = \<lparr>post_url = url self, post_data = payload, post_headers = headers,
                  post_timeout = timeout self\<rparr>
      in (case post args of
            Inl e \<Rightarrow> Inl e
          | Inr response \<Rightarrow>
              if status_code response = 200
              then (if is_json
                    then (case json response of Inl e \<Rightarrow> Inl e | Inr v \<Rightarrow> Inr (Decoded v))
                    else Inr (Raw (content response)))
              else if status_code response = 400
              then Inl (FCMMalformedJsonException
                     ''Error 400: The request could not be parsed as JSON, or it contained invalid fields.'')
              else if status_code response = 401
              then Inl (FCMAuthenticationException
                     ''Error 401: There was an error authenticating the sender account.'')
              else if status_code response = 503
              then Inl (FCMInternalException
                     ''The Firebsase Messaging server is temporarily unavailable'')
              else Inl (FCMInternalException
                     ''There was an internal error in the FCM connection server while trying to process the request''),
          [args]))"

section \<open>Response reconciler\<close>

text \<open>
  \<^verbatim>\<open>groupResponseResult\<close> returns a dictionary from recipient to value for the keys
  \<^verbatim>\<open>registration_id\<close> and \<^verbatim>\<open>message_id\<close>, and the items of a \<^verbatim>\<open>defaultdict(list)\<close>
  (pairs of a reason and the list of its recipients, in insertion order) for any other key.
\<close>

datatype grouping =
    DictGrouping "(pyval \<times> pyval) list"
  | ItemsGrouping "(pyval \<times> pyval list) list"

text \<open>
  The generator \<^verbatim>\<open>((reg_id, res[key]) for reg_id, res in mapping if key in res)\<close>:
  it yields pairs until it is exhausted or an operation on an entry raises.
\<close>

fun filtered :: "string \<Rightarrow> (pyval \<times> pyval) list \<Rightarrow> (exn + pyval \<times> pyval) list" where
  "filtered key [] = []"
| "filtered key ((reg_id, res) # mapping) =
     (case contains key res of
        Inl e \<Rightarrow> [Inl e]
      | Inr present \<Rightarrow>
          if present
          then (case subscript res key of
                  Inl e \<Rightarrow> [Inl e]
                | Inr v \<Rightarrow> Inr (reg_id, v) # filtered key mapping)
          else filtered key mapping)"

text \<open>\<^verbatim>\<open>dict(filtered)\<close>.\<close>

fun dict_of :: "(exn + pyval \<times> pyval) list \<Rightarrow> (pyval \<times> pyval) list \<Rightarrow> exn + (pyval \<times> pyval) list" where
  "dict_of [] acc = Inr acc"
| "dict_of (Inl e # rest) acc = Inl e"
| "dict_of (Inr (k, v) # rest) acc =
     (if hashable k then dict_of rest (assign k v acc) else Inl TypeError)"

text \<open>The loop \<^verbatim>\<open>for k, v in filtered: grouping[v].append(k)\<close>.\<close>

fun group_of ::
  "(exn + pyval \<times> pyval) list \<Rightarrow> (pyval \<times> pyval list) list \<Rightarrow> exn + (pyval \<times> pyval list) list" where
  "group_of [] acc = Inr acc"
| "group_of (Inl e # rest) acc = Inl e"
| "group_of (Inr (k, v) # rest) acc =
     (if hashable v then group_of rest (append_to v k acc) else Inl TypeError)"

definition groupResponseResult :: "pyval \<Rightarrow> pyval \<Rightarrow> string \<Rightarrow> exn + grouping option" where
  "groupResponseResult response reg_ids key =
     (case subscript response ''results'' of
        Inl e \<Rightarrow> Inl e
      | Inr results \<Rightarrow>
     (case py_iter reg_ids of
        Inl e \<Rightarrow> Inl e
      | Inr ids \<Rightarrow>
     (case py_iter results of
        Inl e \<Rightarrow> Inl e
      | Inr rs \<Rightarrow>
          (let mapping = zip ids rs;
               gen = filtered key mapping
           in if key \<in> set [''registration_id'', ''message_id'']
              then (case dict_of gen [] of
                      Inl e \<Rightarrow> Inl e
                    | Inr g \<Rightarrow> Inr (if g = [] then None else Some (DictGrouping g)))
              else (case group_of gen [] of
                      Inl e \<Rightarrow> Inl e
                    | Inr g \<Rightarrow> Inr (if g = [] then None else Some (ItemsGrouping g)))))))"

text \<open>
  The reconciled result: a dictionary with up to three keys; \<open>None\<close> stands for an
  absent key.
\<close>

record reconciled =
  errors :: "grouping option"
  canonical :: "grouping option"
  success :: "grouping option"

definition kwargs_get :: "pydict \<Rightarrow> string \<Rightarrow> pyval" where
  "kwargs_get kwargs k = (case map_of kwargs k of None \<Rightarrow> PNone | Some v \<Rightarrow> v)"

definition handleJSONResponse :: "pyval \<Rightarrow> pydict \<Rightarrow> exn + reconciled" where
  "handleJSONResponse response kwargs =
     (let reg_ids0 = kwargs_get kwargs ''registration_ids'';
          to = kwargs_get kwargs ''to'';
          reg_ids = (if truthy to \<and> \<not> truthy reg_ids0 then PList [to] else reg_ids0)
      in case groupResponseResult response reg_ids ''error'' of
           Inl e \<Rightarrow> Inl e
         | Inr errs \<Rightarrow>
        (case groupResponseResult response reg_ids ''registration_id'' of
           Inl e \<Rightarrow> Inl e
         | Inr canon \<Rightarrow>
        (case groupResponseResult response reg_ids ''message_id'' of
           Inl e \<Rightarrow> Inl e
         | Inr succ \<Rightarrow>
             Inr \<lparr>errors = (if errs \<noteq> None then errs else None),
                  canonical = (if canon \<noteq> None then canon else None),
                  success = (if succ \<noteq> None then succ else None)\<rparr>)))"

section \<open>Client facade\<close>

text \<open>
  Python binds the keyword arguments of a call to the parameters of the callee, and a
  keyword that names a parameter already given raises \<^verbatim>\<open>TypeError\<close> at the call:
  \<^verbatim>\<open>createPayLoad(is_json=False, **kwargs)\<close> with an \<^verbatim>\<open>is_json\<close> among the options, and
  \<^verbatim>\<open>handleJSONResponse(response, **kwargs)\<close> with a \<^verbatim>\<open>response\<close> among them. (A keyword
  \<^verbatim>\<open>self\<close> is refused at the send call itself, so the options of a send call never hold it.)
\<close>

definition sendData ::
  "FirebaseMessaging \<Rightarrow> transport \<Rightarrow> pydict \<Rightarrow> (exn + reconciled) \<times> post_args list" where
  "sendData self post kwargs =
     (case createPayLoad kwargs of
        Inl e \<Rightarrow> (Inl e, [])
      | Inr payload \<Rightarrow>
          (case makeRequest self post payload True of
             (Inl e, trace) \<Rightarrow> (Inl e, trace)
           | (Inr resp, trace) \<Rightarrow>
               (if ''response'' \<in> set (keys kwargs) then Inl TypeError
                else (case resp of
                        Decoded v \<Rightarrow> handleJSONResponse v kwargs
                      | Raw s \<Rightarrow> Inl TypeError),
                trace)))"

definition sendNotification ::
  "FirebaseMessaging \<Rightarrow> transport \<Rightarrow> pydict \<Rightarrow> (exn + reconciled) \<times> post_args list" where
  "sendNotification self post kwargs = sendData self post kwargs"

text \<open>
  \<^verbatim>\<open>sendPlainText\<close> ends in \<^verbatim>\<open>pass\<close>: the value of \<^verbatim>\<open>makeRequest\<close> is dropped and the
  method returns \<^verbatim>\<open>None\<close> (here \<open>None\<close> of the option type).
\<close>

definition sendPlainText ::
  "FirebaseMessaging \<Rightarrow> transport \<Rightarrow> pydict \<Rightarrow> (exn + reply option) \<times> post_args list" where
  "sendPlainText self post kwargs =
     (if ''is_json'' \<in> set (keys kwargs) then (Inl TypeError, [])
      else (case createPayLoad ((''is_json'', PBool False) # kwargs) of
              Inl e \<Rightarrow> (Inl e, [])
            | Inr payload \<Rightarrow>
                (case makeRequest self post payload False of
                   (Inl e, trace) \<Rightarrow> (Inl e, trace)
                 | (Inr resp, trace) \<Rightarrow> (Inr None, trace))))"

text \<open>A transport that answers every request with one fixed response.\<close>

definition answering :: "response \<Rightarrow> transport" where
  "answering r args = Inr r"

text \<open>A client, for the concrete evaluations below.\<close>

definition client0 :: FirebaseMessaging where
  "client0 = FirebaseMessaging_init ''key'' None"

text \<open>The exception message of \<^verbatim>\<open>validate_registration_ids\<close>.\<close>

definition too_many_msg :: string where
  "too_many_msg = ''Exceded number of reigstration ids. Only 1000 per request allowed''"


text \<open>The object dictionary after the first statement of \<^verbatim>\<open>PlainTextPayload.body\<close>.\<close>

definition with_registration_ids :: "pydict \<Rightarrow> pydict" where
  "with_registration_ids dict =
     (if ''registration_ids'' \<notin> set (keys dict)
      then AList.update ''registration_ids'' PNone dict else dict)"

text \<open>The key \<^verbatim>\<open>'data.%s' % key\<close>, and the loop of \<^verbatim>\<open>PlainTextPayload.body\<close> over the
  items of \<^verbatim>\<open>data\<close>.\<close>

definition data_key :: "string \<Rightarrow> string" where
  "data_key k = ''data.'' @ k"

definition flatten :: "pydict \<Rightarrow> pydict \<Rightarrow> pydict" where
  "flatten kvs d = fold (\<lambda>(key, val) d. AList.update (data_key key) val d) kvs d"

text \<open>The empty reconciled result, \<^verbatim>\<open>{}\<close>.\<close>

definition empty_result :: reconciled where
  "empty_result = \<lparr>errors = None, canonical = None, success = None\<rparr>"

section \<open>Reconciliation, as the specification words it\<close>

text \<open>Shapes of values: a dictionary; a string.\<close>

fun is_dict :: "pyval \<Rightarrow> bool" where
  "is_dict (PDict d) = True"
| "is_dict _ = False"

fun is_str :: "pyval \<Rightarrow> bool" where
  "is_str (PStr s) = True"
| "is_str _ = False"

text \<open>
  The pairs of a recipient and the value found under the key, for the paired entries
  (dictionaries) that have the key.
\<close>

fun present :: "string \<Rightarrow> (pyval \<times> pyval) list \<Rightarrow> (pyval \<times> pyval) list" where
  "present key [] = []"
| "present key ((reg_id, res) # mapping) =
     (case subscript res key of
        Inr v \<Rightarrow> (reg_id, v) # present key mapping
      | Inl e \<Rightarrow> present key mapping)"

text \<open>
  Grouping by reason in the words of the specification: the reasons in the order in which
  they are first seen, each with the recipients that share it, in their order.
\<close>

fun first_seen :: "'a list \<Rightarrow> 'a list" where
  "first_seen [] = []"
| "first_seen (x # xs) = x # removeAll x (first_seen xs)"

definition spec_error_groups :: "(pyval \<times> pyval) list \<Rightarrow> (pyval \<times> pyval list) list" where
  "spec_error_groups pairs =
     map (\<lambda>reason. (reason, map fst (filter (\<lambda>(reg_id, r). r = reason) pairs)))
       (first_seen (map snd pairs))"

text \<open>
  The recipient sequence \<^verbatim>\<open>handleJSONResponse\<close> computes from the options, and the three
  groupings it builds for a recipient sequence.
\<close>

definition recipients :: "pydict \<Rightarrow> pyval" where
  "recipients kwargs =
     (if truthy (kwargs_get kwargs ''to'') \<and> \<not> truthy (kwargs_get kwargs ''registration_ids'')
      then PList [kwargs_get kwargs ''to'']
      else kwargs_get kwargs ''registration_ids'')"

definition reconcile :: "pyval \<Rightarrow> pyval \<Rightarrow> exn + reconciled" where
  "reconcile response reg_ids =
     (case groupResponseResult response reg_ids ''error'' of
        Inl e \<Rightarrow> Inl e
      | Inr errs \<Rightarrow>
     (case groupResponseResult response reg_ids ''registration_id'' of
        Inl e \<Rightarrow> Inl e
      | Inr canon \<Rightarrow>
     (case groupResponseResult response reg_ids ''message_id'' of
        Inl e \<Rightarrow> Inl e
      | Inr succ \<Rightarrow> Inr \<lparr>errors = errs, canonical = canon, success = succ\<rparr>)))"

text \<open>The value an entry holds under a key, and emptiness of a grouping.\<close>

definition value_of :: "string \<Rightarrow> pyval \<Rightarrow> pyval" where
  "value_of key res = (case subscript res key of Inr v \<Rightarrow> v | Inl e \<Rightarrow> PNone)"

fun empty_grouping :: "grouping \<Rightarrow> bool" where
  "empty_grouping (DictGrouping d) = (d = [])"
| "empty_grouping (ItemsGrouping g) = (g = [])"

text \<open>
  The pairs of the specification: the recipient and the result entry at every index below
  the length of the shorter of the two sequences.
\<close>

definition paired :: "pyval list \<Rightarrow> pyval list \<Rightarrow> (pyval \<times> pyval) list" where
  "paired ids rs = map (\<lambda>i. (ids ! i, rs ! i)) [0..<min (length ids) (length rs)]"

section \<open>JSON decoding\<close>

text \<open>
  \<^verbatim>\<open>json.loads\<close> of the standard library with its default arguments, for JSON texts
  without floating-point numbers (the texts \<open>json_dumps\<close> writes).
\<close>

text \<open>Whitespace of JSON, and skipping it.\<close>

definition is_ws :: "char \<Rightarrow> bool" where
  "is_ws c = (c = CHR 0x20 \<or> c = CHR 0x09 \<or> c = CHR 0x0A \<or> c = CHR 0x0D)"

definition skip_ws :: "string \<Rightarrow> string" where
  "skip_ws s = dropWhile is_ws s"

















definition delim :: "string \<Rightarrow> bool" where
  "delim rest = (case rest of [] \<Rightarrow> True
                 | c # r \<Rightarrow> c = CHR '','' \<or> c = CHR '']'' \<or> c = CHR ''}'')"



section \<open>Properties of the transport\<close>

lemma makeRequest_trace:
  "snd (makeRequest self post payload is_json) =
     [\<lparr>post_url = url self, post_data = payload,
       post_headers =
         [(''Authorization'', ''key='' @ api_key self),
          (''Content-type'',
             if is_json then ''application/json''
             else ''application/x-www-form-urlencoded;charset=UTF-8'')],
       post_timeout = timeout self\<rparr>]"
  by (simp add: makeRequest_def Let_def)

text \<open>
  Claim C1, as the code has it. Whatever the body of the response: status 401 raises
  \<^verbatim>\<open>FCMAuthenticationException\<close>; status 503 raises \<^verbatim>\<open>FCMInternalException\<close> with the
  message of the unavailable server (the module has no exception class of its own for it);
  every status outside 200, 400, 401 and 503 raises \<^verbatim>\<open>FCMInternalException\<close> with one
  fixed message, the same for all such statuses (the exception holds no status code).
\<close>

theorem makeRequest_status_errors:
  assumes "post (hd (snd (makeRequest self post payload is_json))) = Inr r"
  shows "(status_code r = 401 \<longrightarrow>
            fst (makeRequest self post payload is_json) =
              Inl (FCMAuthenticationException
                ''Error 401: There was an error authenticating the sender account.''))
       \<and> (status_code r = 503 \<longrightarrow>
            fst (makeRequest self post payload is_json) =
              Inl (FCMInternalException
                ''The Firebsase Messaging server is temporarily unavailable''))
       \<and> (status_code r \<notin> {200, 400, 401, 503} \<longrightarrow>
            fst (makeRequest self post payload is_json) =
              Inl (FCMInternalException
                ''There was an internal error in the FCM connection server while trying to process the request''))"
  using assms by (simp add: makeRequest_def Let_def)

theorem makeRequest_status_errors_witness:
  "fst (makeRequest client0
          (answering \<lparr>status_code = 401, content = ''junk'', json = Inr (PInt 7)\<rparr>)
          (JsonText ''{}'') True) =
     Inl (FCMAuthenticationException
       ''Error 401: There was an error authenticating the sender account.'')
   \<and> fst (makeRequest client0
          (answering \<lparr>status_code = 503, content = [], json = Inl ValueError\<rparr>)
          (JsonText ''{}'') True) =
     Inl (FCMInternalException ''The Firebsase Messaging server is temporarily unavailable'')
   \<and> fst (makeRequest client0
          (answering \<lparr>status_code = 500, content = [], json = Inl ValueError\<rparr>)
          (JsonText ''{}'') False) =
     Inl (FCMInternalException
       ''There was an internal error in the FCM connection server while trying to process the request'')"
  using makeRequest_status_errors [of "answering \<lparr>status_code = 401, content = ''junk'', json = Inr (PInt 7)\<rparr>"
          client0 "JsonText ''{}''" True "\<lparr>status_code = 401, content = ''junk'', json = Inr (PInt 7)\<rparr>"]
        makeRequest_status_errors [of "answering \<lparr>status_code = 503, content = [], json = Inl ValueError\<rparr>"
          client0 "JsonText ''{}''" True "\<lparr>status_code = 503, content = [], json = Inl ValueError\<rparr>"]
        makeRequest_status_errors [of "answering \<lparr>status_code = 500, content = [], json = Inl ValueError\<rparr>"
          client0 "JsonText ''{}''" False "\<lparr>status_code = 500, content = [], json = Inl ValueError\<rparr>"]
  by (simp add: answering_def)

text \<open>
  Claim C1 as stated fails: status 503 raises the same exception class as the other
  internal errors, and statuses 500 and 502 raise the very same exception value, so the
  exception cannot tell the caller which status was received.
\<close>

theorem status_code_not_attached_counterexample:
  "fst (makeRequest client0
          (answering \<lparr>status_code = 503, content = [], json = Inl ValueError\<rparr>)
          (JsonText ''{}'') True) =
     Inl (FCMInternalException ''The Firebsase Messaging server is temporarily unavailable'')
   \<and> fst (makeRequest client0
          (answering \<lparr>status_code = 500, content = [], json = Inl ValueError\<rparr>)
          (JsonText ''{}'') True) =
     fst (makeRequest client0
          (answering \<lparr>status_code = 502, content = [], json = Inl ValueError\<rparr>)
          (JsonText ''{}'') True)"
  by (simp add: makeRequest_def answering_def Let_def)

section \<open>Properties of the payload builder\<close>







lemma pop_default_absent:
  "k \<notin> set (keys d) \<Longrightarrow> pop_default d k = (PNone, d)"
  by (simp add: pop_default_def keys_def map_of_eq_None_iff [THEN iffD2])

lemma map_of_with_registration_ids:
  "k \<noteq> ''registration_ids'' \<Longrightarrow> map_of (with_registration_ids dict) k = map_of dict k"
  by (simp add: with_registration_ids_def update_conv')

lemma PlainTextPayload_body_unfold:
  "PlainTextPayload_body dict =
     (case map_of dict ''data'' of
        None \<Rightarrow> Inl (KeyError ''data'')
      | Some data \<Rightarrow>
          (case items data of
             Inl e \<Rightarrow> Inl e
           | Inr kvs \<Rightarrow>
               Inr (fold (\<lambda>(key, val) d. AList.update (''data.'' @ key) val d) kvs
                     (AList.delete ''data'' (with_registration_ids dict)))))"
proof -
  have d1: "(if ''registration_ids'' \<notin> set (keys dict)
             then (case pop_default dict ''registration_ids'' of
                     (v, d') \<Rightarrow> AList.update ''registration_ids'' v d')
             else dict) = with_registration_ids dict"
    by (simp add: with_registration_ids_def pop_default_absent)
  have "map_of (with_registration_ids dict) ''data'' = map_of dict ''data''"
    by (simp add: map_of_with_registration_ids)
  then show ?thesis
    unfolding PlainTextPayload_body_def d1 Let_def pop_def
    by (simp split: option.splits)
qed





text \<open>
  Claim C10, as the code has it. A \<^verbatim>\<open>sendPlainText\<close> call whose options hold no
  \<^verbatim>\<open>data\<close> and no \<^verbatim>\<open>is_json\<close>, and pass validation (\<^verbatim>\<open>registration_ids\<close>, if given,
  has a length of at most 1000), raises \<^verbatim>\<open>KeyError('data')\<close> while building the payload,
  and issues no POST.
\<close>

theorem sendPlainText_without_data:
  assumes "''data'' \<notin> set (keys kwargs)"
    and "''is_json'' \<notin> set (keys kwargs)"
    and "validate kwargs = Inr ()"
  shows "sendPlainText self post kwargs = (Inl (KeyError ''data''), [])"
proof -
  have del: "AList.delete ''is_json'' kwargs = kwargs"
    using assms(2) by (induction kwargs) (auto simp: keys_def)
  have nodata: "map_of kwargs ''data'' = None"
    using assms(1) by (simp add: keys_def map_of_eq_None_iff)
  then have "PlainTextPayload_body kwargs = Inl (KeyError ''data'')"
    by (simp add: PlainTextPayload_body_unfold)
  with del assms(2,3) show ?thesis
    by (simp add: sendPlainText_def createPayLoad_def Payload_init_def Let_def)
qed

theorem sendPlainText_without_data_witness:
  "sendPlainText client0 (answering \<lparr>status_code = 200, content = [], json = Inr PNone\<rparr>)
     [(''to'', PStr ''R1''), (''registration_ids'', PList [PStr ''a''])] = (Inl (KeyError ''data''), [])"
  using sendPlainText_without_data [of "[(''to'', PStr ''R1''), (''registration_ids'', PList [PStr ''a''])]"
     client0 "answering \<lparr>status_code = 200, content = [], json = Inr PNone\<rparr>"]
  by (simp add: keys_def validate_registration_ids_def)

text \<open>
  Claim C10 as stated fails when validation fails first: 1001 recipients and no \<^verbatim>\<open>data\<close>
  raise \<^verbatim>\<open>FCMTooManyRegIdsException\<close>, not a key-lookup error.
\<close>

theorem too_many_before_data_counterexample:
  "sendPlainText client0 (answering \<lparr>status_code = 200, content = [], json = Inr PNone\<rparr>)
     [(''registration_ids'', PList (replicate 1001 (PStr ''r'')))] =
     (Inl (FCMTooManyRegIdsException too_many_msg), [])"
  by (simp add: sendPlainText_def createPayLoad_def Payload_init_def
      validate_registration_ids_def keys_def Let_def too_many_msg_def)

section \<open>Properties of the facade\<close>

text \<open>
  Claim C2 fails on the code: \<^verbatim>\<open>sendPlainText\<close> drops the value of \<^verbatim>\<open>makeRequest\<close>.
  With a payload that builds and a POST answered with status 200 and the body
  \<^verbatim>\<open>id=0:abc\<close>, the method returns \<^verbatim>\<open>None\<close>, not the body.
\<close>

theorem sendPlainText_drops_body:
  "sendPlainText client0
     (answering \<lparr>status_code = 200, content = ''id=0:abc'', json = Inl ValueError\<rparr>)
     [(''to'', PStr ''R1''), (''data'', PDict [(''k'', PStr ''v'')])]
   = (Inr None,
      [\<lparr>post_url = FCM_SERVER,
        post_data = FormFields [(''to'', PStr ''R1''), (''registration_ids'', PNone),
                                (''data.k'', PStr ''v'')],
        post_headers = [(''Authorization'', ''key=key''),
                        (''Content-type'', ''application/x-www-form-urlencoded;charset=UTF-8'')],
        post_timeout = None\<rparr>])"
  by (simp add: sendPlainText_def createPayLoad_def Payload_init_def PlainTextPayload_body_def
      pop_def pop_default_def keys_def makeRequest_def answering_def client0_def
      FirebaseMessaging_init_def Let_def)

section \<open>Properties of the plain-text payload\<close>

lemma flatten_Nil: "flatten [] d = d"
  by (simp add: flatten_def)

lemma flatten_Cons: "flatten ((k, v) # kvs) d = flatten kvs (AList.update (data_key k) v d)"
  by (simp add: flatten_def)

lemma data_key_inject: "data_key a = data_key b \<longleftrightarrow> a = b"
  by (simp add: data_key_def)

lemma flatten_other:
  "k' \<notin> data_key ` set (keys kvs) \<Longrightarrow> map_of (flatten kvs d) k' = map_of d k'"
proof (induction kvs arbitrary: d)
  case Nil
  show ?case by (simp add: flatten_Nil)
next
  case (Cons p kvs)
  obtain k v where p: "p = (k, v)" by (cases p)
  from Cons.prems p have ne: "k' \<noteq> data_key k"
    and rest: "k' \<notin> data_key ` set (keys kvs)"
    by (auto simp: keys_def)
  have "map_of (flatten kvs (AList.update (data_key k) v d)) k'
        = map_of (AList.update (data_key k) v d) k'"
    using rest by (rule Cons.IH)
  also have "\<dots> = map_of d k'"
    using ne by (simp add: update_conv')
  finally show ?case by (simp add: p flatten_Cons)
qed

lemma flatten_entry:
  "distinct (keys kvs) \<Longrightarrow> (k, v) \<in> set kvs \<Longrightarrow> map_of (flatten kvs d) (data_key k) = Some v"
proof (induction kvs arbitrary: d)
  case Nil
  then show ?case by simp
next
  case (Cons p kvs)
  obtain k0 v0 where p: "p = (k0, v0)" by (cases p)
  from Cons.prems(1) p have k0: "k0 \<notin> set (keys kvs)" and dist: "distinct (keys kvs)"
    by (auto simp: keys_def)
  show ?case
  proof (cases "(k, v) \<in> set kvs")
    case True
    with dist show ?thesis by (simp add: p flatten_Cons Cons.IH)
  next
    case False
    with Cons.prems(2) p have eq: "k0 = k" "v0 = v" by auto
    have "data_key k \<notin> data_key ` set (keys kvs)"
      using k0 eq by (auto simp: data_key_inject)
    then have "map_of (flatten kvs (AList.update (data_key k) v d)) (data_key k)
               = map_of (AList.update (data_key k) v d) (data_key k)"
      by (rule flatten_other)
    then show ?thesis by (simp add: p eq flatten_Cons update_conv')
  qed
qed

lemma not_key_iff: "k \<notin> set (keys d) \<longleftrightarrow> map_of d k = None"
  by (simp add: keys_def map_of_eq_None_iff)

text \<open>
  Claim C7, as the code has it. For an object dictionary that holds a \<^verbatim>\<open>data\<close> dictionary
  (distinct keys), the plain-text body is a dictionary in which every entry \<open>(k, v)\<close> of
  \<^verbatim>\<open>data\<close> is found under the key \<^verbatim>\<open>data.<k>\<close>, the key \<^verbatim>\<open>data\<close> is gone, and the key
  \<^verbatim>\<open>registration_ids\<close> is bound to \<^verbatim>\<open>None\<close> when the input had none (it is added, not
  removed) and keeps its value otherwise; every other field keeps its value.
\<close>

theorem PlainTextPayload_body_flattens:
  assumes "map_of dict ''data'' = Some (PDict dkv)" and "distinct (keys dkv)"
  shows "\<exists>body. PlainTextPayload_body dict = Inr body
           \<and> (\<forall>(k, v) \<in> set dkv. map_of body (''data.'' @ k) = Some v)
           \<and> ''data'' \<notin> set (keys body)
           \<and> (''registration_ids'' \<notin> set (keys dict) \<longrightarrow>
                map_of body ''registration_ids'' = Some PNone)
           \<and> (''registration_ids'' \<in> set (keys dict) \<longrightarrow>
                map_of body ''registration_ids'' = map_of dict ''registration_ids'')
           \<and> (\<forall>k'. k' \<noteq> ''data'' \<and> k' \<noteq> ''registration_ids''
                  \<and> k' \<notin> (\<lambda>k. ''data.'' @ k) ` set (keys dkv) \<longrightarrow>
                  map_of body k' = map_of dict k')"
proof -
  let ?d2 = "AList.delete ''data'' (with_registration_ids dict)"
  let ?body = "flatten dkv ?d2"
  have img: "(\<lambda>k. ''data.'' @ k) = data_key"
    by (simp add: data_key_def fun_eq_iff)
  have body: "PlainTextPayload_body dict = Inr ?body"
    using assms(1) by (simp add: PlainTextPayload_body_unfold flatten_def data_key_def)
  have entries: "\<forall>(k, v) \<in> set dkv. map_of ?body (data_key k) = Some v"
    using assms(2) by (auto simp: flatten_entry)
  have other: "map_of ?body k' = map_of ?d2 k'"
    if "k' \<notin> data_key ` set (keys dkv)" for k'
    using that by (rule flatten_other)
  have "map_of ?body ''data'' = map_of ?d2 ''data''"
    by (rule other) (auto simp: data_key_def)
  then have nodata: "''data'' \<notin> set (keys ?body)"
    by (simp add: not_key_iff delete_conv')
  have "map_of ?body ''registration_ids'' = map_of ?d2 ''registration_ids''"
    by (rule other) (auto simp: data_key_def)
  then have rid: "map_of ?body ''registration_ids'' = map_of (with_registration_ids dict) ''registration_ids''"
    by (simp add: delete_conv')
  have rid_absent: "map_of ?body ''registration_ids'' = Some PNone"
    if "''registration_ids'' \<notin> set (keys dict)"
    using rid that by (simp add: with_registration_ids_def update_conv')
  have rid_present: "map_of ?body ''registration_ids'' = map_of dict ''registration_ids''"
    if "''registration_ids'' \<in> set (keys dict)"
    using rid that by (simp add: with_registration_ids_def)
  have rest: "map_of ?body k' = map_of dict k'"
    if "k' \<noteq> ''data''" "k' \<noteq> ''registration_ids''"
       "k' \<notin> data_key ` set (keys dkv)" for k'
    using other [OF that(3)] that(1,2)
    by (simp add: delete_conv' map_of_with_registration_ids)
  show ?thesis
    unfolding img append_Cons [symmetric]
    using body entries nodata rid_absent rid_present rest
    unfolding data_key_def by blast
qed

theorem PlainTextPayload_body_flattens_witness:
  "\<exists>body. PlainTextPayload_body [(''to'', PStr ''R1''), (''data'', PDict [(''k'', PStr ''v'')])] = Inr body
     \<and> map_of body ''data.k'' = Some (PStr ''v'')
     \<and> ''data'' \<notin> set (keys body)
     \<and> map_of body ''registration_ids'' = Some PNone
     \<and> map_of body ''to'' = Some (PStr ''R1'')"
  using PlainTextPayload_body_flattens
    [of "[(''to'', PStr ''R1''), (''data'', PDict [(''k'', PStr ''v'')])]" "[(''k'', PStr ''v'')]"]
  by (force simp: keys_def)

text \<open>
  Claim C7 as stated fails in its last part: built from a \<^verbatim>\<open>data\<close> field alone, the body
  holds the key \<^verbatim>\<open>registration_ids\<close>, bound to \<^verbatim>\<open>None\<close>.
\<close>

theorem registration_ids_added_counterexample:
  "PlainTextPayload_body [(''data'', PDict [(''k'', PStr ''v'')])] =
     Inr [(''registration_ids'', PNone), (''data.k'', PStr ''v'')]"
  by (simp add: PlainTextPayload_body_def pop_def pop_default_def keys_def Let_def)

section \<open>Sends without recipients\<close>

lemma subscript_error:
  "subscript v k = Inl e \<Longrightarrow> e = TypeError \<or> e = KeyError k"
  by (cases v) (auto split: option.splits)

lemma groupResponseResult_None:
  "groupResponseResult response PNone key =
     Inl (case subscript response ''results'' of Inl e \<Rightarrow> e | Inr results \<Rightarrow> TypeError)"
  by (simp add: groupResponseResult_def split: sum.splits)

lemma kwargs_get_absent: "k \<notin> set (keys kwargs) \<Longrightarrow> kwargs_get kwargs k = PNone"
  by (simp add: kwargs_get_def not_key_iff)

lemma handleJSONResponse_no_recipients:
  assumes "''registration_ids'' \<notin> set (keys kwargs)" and "''to'' \<notin> set (keys kwargs)"
  shows "handleJSONResponse response kwargs =
     Inl (case subscript response ''results'' of Inl e \<Rightarrow> e | Inr results \<Rightarrow> TypeError)"
  using assms
  by (simp add: handleJSONResponse_def kwargs_get_absent groupResponseResult_None Let_def)

text \<open>
  Claim C9, as the code has it. For a \<^verbatim>\<open>sendData\<close> or \<^verbatim>\<open>sendNotification\<close> call whose
  options hold neither \<^verbatim>\<open>to\<close> nor \<^verbatim>\<open>registration_ids\<close>, whose payload builds, and whose
  POST is answered with status 200 and a body that decodes: the call raises after the POST,
  \<^verbatim>\<open>TypeError\<close> or \<^verbatim>\<open>KeyError('results')\<close>; when the decoded document has a
  \<^verbatim>\<open>results\<close> entry it is the \<^verbatim>\<open>TypeError\<close> of pairing over \<^verbatim>\<open>None\<close>.
\<close>

theorem sendData_without_recipients:
  assumes "''registration_ids'' \<notin> set (keys kwargs)" and "''to'' \<notin> set (keys kwargs)"
    and "createPayLoad kwargs = Inr payload"
    and "post (hd (snd (makeRequest self post payload True))) = Inr r"
    and "status_code r = 200" and "json r = Inr v"
  shows "(fst (sendData self post kwargs) = Inl TypeError
            \<or> fst (sendData self post kwargs) = Inl (KeyError ''results''))
       \<and> (subscript v ''results'' = Inr results \<longrightarrow>
            fst (sendData self post kwargs) = Inl TypeError)
       \<and> snd (sendData self post kwargs) = snd (makeRequest self post payload True)
       \<and> sendNotification self post kwargs = sendData self post kwargs"
proof -
  define tr where "tr = snd (makeRequest self post payload True)"
  have req: "makeRequest self post payload True = (Inr (Decoded v), tr)"
    using assms(4,5,6) by (simp add: makeRequest_def Let_def tr_def)
  have h: "handleJSONResponse v kwargs =
     Inl (case subscript v ''results'' of Inl e \<Rightarrow> e | Inr results \<Rightarrow> TypeError)"
    using assms(1,2) by (rule handleJSONResponse_no_recipients)
  have send: "sendData self post kwargs =
     (if ''response'' \<in> set (keys kwargs) then Inl TypeError else handleJSONResponse v kwargs, tr)"
    by (simp add: sendData_def assms(3) req)
  have err: "(case subscript v ''results'' of Inl e \<Rightarrow> e | Inr results \<Rightarrow> TypeError) = TypeError
     \<or> (case subscript v ''results'' of Inl e \<Rightarrow> e | Inr results \<Rightarrow> TypeError) = KeyError ''results''"
    using subscript_error [of v "''results''"] by (cases "subscript v ''results''") auto
  show ?thesis
    using err by (auto simp: send h sendNotification_def tr_def [symmetric])
qed

theorem sendData_without_recipients_witness:
  "fst (sendData client0
          (answering \<lparr>status_code = 200, content = [],
                      json = Inr (PDict [(''results'', PList [PDict [(''message_id'', PStr ''0:abc'')]])])\<rparr>)
          [(''data'', PDict [(''k'', PStr ''v'')])]) = Inl TypeError"
  using sendData_without_recipients
    [of "[(''data'', PDict [(''k'', PStr ''v'')])]"
        "JsonText (json_dumps (PDict [(''data'', PDict [(''k'', PStr ''v'')])]))"
        "answering \<lparr>status_code = 200, content = [],
                      json = Inr (PDict [(''results'', PList [PDict [(''message_id'', PStr ''0:abc'')]])])\<rparr>"
        client0
        "\<lparr>status_code = 200, content = [],
                      json = Inr (PDict [(''results'', PList [PDict [(''message_id'', PStr ''0:abc'')]])])\<rparr>"
        "PDict [(''results'', PList [PDict [(''message_id'', PStr ''0:abc'')]])]"
        "PList [PDict [(''message_id'', PStr ''0:abc'')]]"]
  by (simp add: keys_def createPayLoad_def Payload_init_def JsonPayload_body_def answering_def)

text \<open>
  Claim C9 as stated fails for an empty \<^verbatim>\<open>registration_ids\<close> list (no \<^verbatim>\<open>to\<close>, no non-empty
  list): the recipient sequence is then the empty list, not \<^verbatim>\<open>None\<close>, and the call
  returns the empty reconciled result.
\<close>

theorem empty_registration_ids_counterexample:
  "fst (sendData client0
          (answering \<lparr>status_code = 200, content = [],
                      json = Inr (PDict [(''results'', PList [])])\<rparr>)
          [(''registration_ids'', PList [])]) = Inr empty_result"
  by (simp add: sendData_def createPayLoad_def Payload_init_def validate_registration_ids_def
      makeRequest_def answering_def handleJSONResponse_def groupResponseResult_def kwargs_get_def
      keys_def empty_result_def Let_def)

section \<open>Properties of the reconciler\<close>

lemma filtered_dicts:
  "\<forall>(reg_id, res) \<in> set mapping. is_dict res \<Longrightarrow>
   filtered key mapping = map Inr (present key mapping)"
proof (induction mapping)
  case Nil
  show ?case by simp
next
  case (Cons p mapping)
  obtain reg_id res where p: "p = (reg_id, res)" by (cases p)
  with Cons.prems obtain d where d: "res = PDict d" by (cases res) auto
  from Cons have IH: "filtered key mapping = map Inr (present key mapping)" by simp
  show ?case
  proof (cases "map_of d key")
    case None
    then have "key \<notin> set (keys d)" by (simp add: not_key_iff)
    with None show ?thesis by (simp add: p d IH)
  next
    case (Some a)
    then have "key \<in> set (keys d)" using not_key_iff [of key d] by simp
    with Some show ?thesis by (simp add: p d IH)
  qed
qed

lemma key_eq_str: "is_str a \<Longrightarrow> is_str b \<Longrightarrow> key_eq a b \<longleftrightarrow> a = b"
  by (cases a; cases b) (simp_all add: key_eq_def)

lemma hashable_str: "is_str a \<Longrightarrow> hashable a"
  by (cases a) simp_all

lemma dict_of_hashable:
  "\<forall>(k, v) \<in> set ps. hashable k \<Longrightarrow>
   dict_of (map Inr ps) acc = Inr (fold (\<lambda>(k, v). assign k v) ps acc)"
  by (induction ps arbitrary: acc) auto

lemma group_of_hashable:
  "\<forall>(k, v) \<in> set ps. hashable v \<Longrightarrow>
   group_of (map Inr ps) acc = Inr (fold (\<lambda>(k, v). append_to v k) ps acc)"
  by (induction ps arbitrary: acc) auto

lemma zip_truncate:
  "zip xs ys = zip (take (min (length xs) (length ys)) xs) (take (min (length xs) (length ys)) ys)"
proof -
  have "zip xs ys = take (min (length xs) (length ys)) (zip xs ys)" by simp
  then show ?thesis by (simp only: take_zip)
qed


lemma set_first_seen: "set (first_seen xs) = set xs"
  by (induction xs) auto

lemma distinct_first_seen: "distinct (first_seen xs)"
  by (induction xs) (auto simp: distinct_removeAll)

lemma first_seen_snoc:
  "first_seen (xs @ [v]) = (if v \<in> set xs then first_seen xs else first_seen xs @ [v])"
  by (induction xs) auto

lemma append_to_groups:
  assumes "distinct es" and "\<forall>e \<in> set es. is_str e" and "is_str v"
  shows "append_to v k (map (\<lambda>e. (e, f e)) es) =
           (if v \<in> set es
            then map (\<lambda>e. (e, if e = v then f e @ [k] else f e)) es
            else map (\<lambda>e. (e, f e)) es @ [(v, [k])])"
  using assms
proof (induction es)
  case Nil
  show ?case by simp
next
  case (Cons e es)
  then have IH: "append_to v k (map (\<lambda>e. (e, f e)) es) =
           (if v \<in> set es
            then map (\<lambda>e. (e, if e = v then f e @ [k] else f e)) es
            else map (\<lambda>e. (e, f e)) es @ [(v, [k])])"
    by simp
  from Cons.prems have eq: "key_eq e v \<longleftrightarrow> e = v"
    by (simp add: key_eq_str)
  show ?case
  proof (cases "e = v")
    case True
    with Cons.prems(1) have "v \<notin> set es" by simp
    then have "map (\<lambda>e. (e, if e = v then f e @ [k] else f e)) es = map (\<lambda>e. (e, f e)) es"
      by (intro map_cong) auto
    with True eq show ?thesis by simp
  next
    case False
    with eq IH show ?thesis by simp
  qed
qed

lemma spec_error_groups_snoc:
  assumes "\<forall>(reg_id, r) \<in> set pairs. is_str r" and "is_str v"
  shows "spec_error_groups (pairs @ [(k, v)]) = append_to v k (spec_error_groups pairs)"
proof -
  let ?es = "first_seen (map snd pairs)"
  let ?ids = "\<lambda>ps reason. map fst (filter (\<lambda>(reg_id, r). r = reason) ps)"
  have str: "\<forall>e \<in> set ?es. is_str e"
    using assms(1) by (auto simp: set_first_seen)
  have ids_snoc: "?ids (pairs @ [(k, v)]) e = (if e = v then ?ids pairs e @ [k] else ?ids pairs e)" for e
    by auto
  have fresh: "?ids pairs v = []" if "v \<notin> set (map snd pairs)"
    using that by (force simp: filter_empty_conv)
  have "append_to v k (spec_error_groups pairs) =
          (if v \<in> set ?es
           then map (\<lambda>e. (e, if e = v then ?ids pairs e @ [k] else ?ids pairs e)) ?es
           else map (\<lambda>e. (e, ?ids pairs e)) ?es @ [(v, [k])])"
    unfolding spec_error_groups_def
    using distinct_first_seen str assms(2) by (rule append_to_groups)
  also have "\<dots> = spec_error_groups (pairs @ [(k, v)])"
  proof (cases "v \<in> set (map snd pairs)")
    case True
    then show ?thesis
      unfolding spec_error_groups_def
      by (simp only: map_append list.map snd_conv first_seen_snoc set_first_seen ids_snoc if_True)
  next
    case False
    have "map (\<lambda>e. (e, if e = v then ?ids pairs e @ [k] else ?ids pairs e)) ?es
          = map (\<lambda>e. (e, ?ids pairs e)) ?es"
      using False by (intro map_cong) (auto simp: set_first_seen)
    with False fresh [OF False] show ?thesis
      unfolding spec_error_groups_def
      by (auto simp: first_seen_snoc set_first_seen)
  qed
  finally show ?thesis by simp
qed

lemma fold_append_to:
  "\<forall>(reg_id, r) \<in> set pairs. is_str r \<Longrightarrow>
   fold (\<lambda>(k, v). append_to v k) pairs [] = spec_error_groups pairs"
proof (induction pairs rule: rev_induct)
  case Nil
  show ?case by (simp add: spec_error_groups_def)
next
  case (snoc p pairs)
  obtain k v where p: "p = (k, v)" by (cases p)
  from snoc.prems p have str: "\<forall>(reg_id, r) \<in> set pairs. is_str r" and v: "is_str v"
    by auto
  show ?case
    by (simp add: p snoc.IH [OF str] spec_error_groups_snoc [OF str v])
qed


lemma groupResponseResult_lists:
  assumes "map_of rd ''results'' = Some (PList rs)"
  shows "groupResponseResult (PDict rd) (PList ids) key =
     (if key \<in> set [''registration_id'', ''message_id'']
      then (case dict_of (filtered key (zip ids rs)) [] of
              Inl e \<Rightarrow> Inl e
            | Inr g \<Rightarrow> Inr (if g = [] then None else Some (DictGrouping g)))
      else (case group_of (filtered key (zip ids rs)) [] of
              Inl e \<Rightarrow> Inl e
            | Inr g \<Rightarrow> Inr (if g = [] then None else Some (ItemsGrouping g))))"
  using assms by (simp add: groupResponseResult_def Let_def)

lemma groupResponseResult_truncate:
  assumes "map_of rd ''results'' = Some (PList rs)"
    and "n = min (length ids) (length rs)"
  shows "groupResponseResult (PDict rd) (PList ids) key =
         groupResponseResult (PDict (AList.update ''results'' (PList (take n rs)) rd))
           (PList (take n ids)) key"
proof -
  have upd: "map_of (AList.update ''results'' (PList (take n rs)) rd) ''results''
             = Some (PList (take n rs))"
    by (simp add: update_conv')
  have z: "zip ids rs = zip (take n ids) (take n rs)"
    unfolding assms(2) by (rule zip_truncate)
  show ?thesis
    unfolding groupResponseResult_lists [OF assms(1)] groupResponseResult_lists [OF upd] z ..
qed

lemma handleJSONResponse_reconcile:
  "handleJSONResponse response kwargs = reconcile response (recipients kwargs)"
  by (simp add: handleJSONResponse_def reconcile_def recipients_def Let_def
      split: sum.splits)

lemma recipients_list:
  "map_of kwargs ''registration_ids'' = Some (PList ids) \<Longrightarrow>
   ids \<noteq> [] \<or> \<not> truthy (kwargs_get kwargs ''to'') \<Longrightarrow> recipients kwargs = PList ids"
  by (auto simp: recipients_def kwargs_get_def)

lemma kwargs_get_update_other:
  "k \<noteq> k' \<Longrightarrow> kwargs_get (AList.update k' v kwargs) k = kwargs_get kwargs k"
  by (simp add: kwargs_get_def update_conv')

lemma present_sound:
  "(k, v) \<in> set (present key m) \<Longrightarrow> \<exists>r. (k, r) \<in> set m \<and> subscript r key = Inr v"
proof (induction m)
  case Nil
  then show ?case by simp
next
  case (Cons p m)
  obtain a b where p: "p = (a, b)" by (cases p)
  show ?case
  proof (cases "subscript b key")
    case (Inl e)
    with Cons p show ?thesis by auto
  next
    case (Inr x)
    with Cons p show ?thesis by (cases "(k, v) = (a, x)") auto
  qed
qed

lemma groupResponseResult_total:
  assumes "map_of rd ''results'' = Some (PList rs)"
    and "\<forall>(reg_id, r) \<in> set (zip ids rs). hashable reg_id \<and> is_dict r"
    and "key \<notin> set [''registration_id'', ''message_id''] \<longrightarrow>
         (\<forall>(reg_id, r) \<in> set (zip ids rs). \<forall>v. subscript r key = Inr v \<longrightarrow> hashable v)"
  shows "\<exists>g. groupResponseResult (PDict rd) (PList ids) key = Inr g"
proof -
  let ?ps = "present key (zip ids rs)"
  have gen: "filtered key (zip ids rs) = map Inr ?ps"
    using assms(2) by (intro filtered_dicts) auto
  have hk: "\<forall>(k, v) \<in> set ?ps. hashable k"
    using assms(2) by (auto dest!: present_sound)
  show ?thesis
  proof (cases "key \<in> set [''registration_id'', ''message_id'']")
    case True
    then show ?thesis
      by (simp add: groupResponseResult_lists [OF assms(1)] gen dict_of_hashable [OF hk]
          del: set_simps)
  next
    case False
    with assms(3) have hv: "\<forall>(k, v) \<in> set ?ps. hashable v"
      by (fastforce dest!: present_sound)
    from False show ?thesis
      by (simp add: groupResponseResult_lists [OF assms(1)] gen group_of_hashable [OF hv]
          del: set_simps)
  qed
qed

lemma present_none:
  "\<forall>r \<in> set rs. \<forall>v. subscript r key \<noteq> Inr v \<Longrightarrow> present key (zip ids rs) = []"
proof (induction ids arbitrary: rs)
  case Nil
  show ?case by simp
next
  case (Cons i ids)
  show ?case
  proof (cases rs)
    case Nil
    then show ?thesis by simp
  next
    case (Cons r rs')
    with Cons.prems Cons.IH [of rs'] show ?thesis
      by (cases "subscript r key") auto
  qed
qed

lemma present_all:
  "\<forall>r \<in> set rs. \<exists>v. subscript r key = Inr v \<Longrightarrow>
   present key (zip ids rs) = zip ids (map (value_of key) rs)"
proof (induction ids arbitrary: rs)
  case Nil
  show ?case by simp
next
  case (Cons i ids)
  show ?case
  proof (cases rs)
    case Nil
    then show ?thesis by simp
  next
    case (Cons r rs')
    with Cons.prems Cons.IH [of rs'] show ?thesis
      by (cases "subscript r key") (auto simp: value_of_def)
  qed
qed

lemma assign_fresh:
  "\<forall>k' \<in> set (map fst d). \<not> key_eq k' k \<Longrightarrow> assign k v d = d @ [(k, v)]"
  by (induction d) auto

lemma assign_keys:
  "is_str k \<Longrightarrow> \<forall>k' \<in> set (map fst d). is_str k' \<Longrightarrow>
   set (map fst (assign k v d)) = insert k (set (map fst d))"
proof (induction d)
  case Nil
  show ?case by simp
next
  case (Cons p d)
  obtain a b where p: "p = (a, b)" by (cases p)
  from Cons.prems p have eq: "key_eq a k \<longleftrightarrow> a = k"
    by (simp add: key_eq_str)
  from Cons have IH: "set (map fst (assign k v d)) = insert k (set (map fst d))"
    by simp
  show ?case
  proof (cases "a = k")
    case True
    with eq show ?thesis by (auto simp: p)
  next
    case False
    with eq IH show ?thesis by (auto simp: p)
  qed
qed

lemma assign_entries:
  "is_str k \<Longrightarrow> \<forall>k' \<in> set (map fst d). is_str k' \<Longrightarrow>
   set (assign k v d) \<subseteq> insert (k, v) (set d)"
proof (induction d)
  case Nil
  show ?case by simp
next
  case (Cons p d)
  obtain a b where p: "p = (a, b)" by (cases p)
  from Cons.prems p have eq: "key_eq a k \<longleftrightarrow> a = k"
    by (simp add: key_eq_str)
  from Cons have IH: "set (assign k v d) \<subseteq> insert (k, v) (set d)"
    by simp
  show ?case
  proof (cases "a = k")
    case True
    with eq show ?thesis by (auto simp: p)
  next
    case False
    with eq IH show ?thesis by (auto simp: p)
  qed
qed

lemma fold_assign_keys:
  "\<forall>k \<in> set (map fst ps) \<union> set (map fst acc). is_str k \<Longrightarrow>
   set (map fst (fold (\<lambda>(k, v). assign k v) ps acc)) = set (map fst acc) \<union> set (map fst ps)
   \<and> set (fold (\<lambda>(k, v). assign k v) ps acc) \<subseteq> set acc \<union> set ps"
proof (induction ps arbitrary: acc)
  case Nil
  show ?case by simp
next
  case (Cons p ps)
  obtain k v where p: "p = (k, v)" by (cases p)
  from Cons.prems p have k: "is_str k" and acc: "\<forall>k' \<in> set (map fst acc). is_str k'"
    by auto
  have keys: "set (map fst (assign k v acc)) = insert k (set (map fst acc))"
    using k acc by (rule assign_keys)
  have ents: "set (assign k v acc) \<subseteq> insert (k, v) (set acc)"
    using k acc by (rule assign_entries)
  have "\<forall>k \<in> set (map fst ps) \<union> set (map fst (assign k v acc)). is_str k"
    using Cons.prems p keys by auto
  from Cons.IH [OF this] keys ents show ?case
    by (auto simp: p)
qed

lemma fold_assign_distinct:
  "distinct (map fst ps) \<Longrightarrow>
   \<forall>k \<in> set (map fst ps) \<union> set (map fst acc). is_str k \<Longrightarrow>
   set (map fst ps) \<inter> set (map fst acc) = {} \<Longrightarrow>
   fold (\<lambda>(k, v). assign k v) ps acc = acc @ ps"
proof (induction ps arbitrary: acc)
  case Nil
  show ?case by simp
next
  case (Cons p ps)
  obtain k v where p: "p = (k, v)" by (cases p)
  from Cons.prems p have "\<forall>k' \<in> set (map fst acc). \<not> key_eq k' k"
    by (auto simp: key_eq_str)
  then have fresh: "assign k v acc = acc @ [(k, v)]"
    by (rule assign_fresh)
  have "fold (\<lambda>(k, v). assign k v) ps (acc @ [(k, v)]) = (acc @ [(k, v)]) @ ps"
    using Cons.prems p by (intro Cons.IH) auto
  with fresh show ?case by (simp add: p)
qed

lemma groupResponseResult_nonempty:
  "groupResponseResult response reg_ids key = Inr (Some g) \<Longrightarrow> \<not> empty_grouping g"
  by (auto simp: groupResponseResult_def Let_def split: sum.splits if_splits)

lemma handleJSONResponse_nonempty:
  assumes "handleJSONResponse response kwargs = Inr result"
  shows "(\<forall>g. errors result = Some g \<longrightarrow> \<not> empty_grouping g)
       \<and> (\<forall>g. canonical result = Some g \<longrightarrow> \<not> empty_grouping g)
       \<and> (\<forall>g. success result = Some g \<longrightarrow> \<not> empty_grouping g)"
  using assms
  by (auto simp: handleJSONResponse_reconcile reconcile_def split: sum.splits
      dest: groupResponseResult_nonempty)


lemma subscript_dict_key:
  "subscript (PDict d) key = Inr v \<longleftrightarrow> map_of d key = Some v"
  by (simp split: option.splits)

lemma subscript_absent:
  "key \<notin> set (keys d) \<Longrightarrow> subscript (PDict d) key = Inl (KeyError key)"
  by (simp add: not_key_iff)

lemma subscript_present:
  "key \<in> set (keys d) \<Longrightarrow> \<exists>v. subscript (PDict d) key = Inr v"
  using not_key_iff [of key d] by (cases "map_of d key") auto

lemma paired_zip: "paired ids rs = zip ids rs"
  by (rule nth_equalityI) (simp_all add: paired_def)

lemma present_every:
  "\<forall>(reg_id, r) \<in> set m. \<exists>v. subscript r key = Inr v \<Longrightarrow>
   present key m = map (\<lambda>(reg_id, r). (reg_id, value_of key r)) m"
proof (induction m)
  case Nil
  show ?case by simp
next
  case (Cons p m)
  obtain a b where p: "p = (a, b)" by (cases p)
  from Cons.prems p obtain v where v: "subscript b key = Inr v" by auto
  from Cons have "present key m = map (\<lambda>(reg_id, r). (reg_id, value_of key r)) m" by simp
  with v show ?case by (simp add: p value_of_def)
qed

lemma assign_not_Nil: "assign k v d \<noteq> []"
  by (cases d) (auto split: if_splits)

lemma fold_assign_not_Nil:
  "ps \<noteq> [] \<or> acc \<noteq> [] \<Longrightarrow> fold (\<lambda>(k, v). assign k v) ps acc \<noteq> []"
proof (induction ps arbitrary: acc)
  case Nil
  then show ?case by simp
next
  case (Cons p ps)
  obtain k v where p: "p = (k, v)" by (cases p)
  have "fold (\<lambda>(k, v). assign k v) ps (assign k v acc) \<noteq> []"
    by (rule Cons.IH) (simp add: assign_not_Nil)
  then show ?case by (simp add: p)
qed

lemma paired_dict_groups:
  assumes res: "map_of rd ''results'' = Some (PList rs)"
    and key: "key \<in> set [''registration_id'', ''message_id'']"
    and wf: "\<forall>(reg_id, r) \<in> set (paired ids rs). hashable reg_id \<and> is_dict r"
  shows "groupResponseResult (PDict rd) (PList ids) key =
           Inr (if present key (paired ids rs) = [] then None
                else Some (DictGrouping
                  (fold (\<lambda>(k, v). assign k v) (present key (paired ids rs)) [])))"
proof -
  let ?ps = "present key (zip ids rs)"
  have gen: "filtered key (zip ids rs) = map Inr ?ps"
    using wf unfolding paired_zip by (intro filtered_dicts) auto
  have hk: "\<forall>(k, v) \<in> set ?ps. hashable k"
    using wf unfolding paired_zip by (auto dest!: present_sound)
  have "fold (\<lambda>(k, v). assign k v) ?ps [] = [] \<longleftrightarrow> ?ps = []"
    using fold_assign_not_Nil [of ?ps "[]"] by auto
  with key show ?thesis
    unfolding paired_zip
    by (simp add: groupResponseResult_lists [OF res] gen dict_of_hashable [OF hk]
        del: set_simps)
qed

lemma paired_error_groups:
  assumes res: "map_of rd ''results'' = Some (PList rs)"
    and wf: "\<forall>(reg_id, r) \<in> set (paired ids rs).
               \<exists>d. r = PDict d \<and> (\<forall>v. map_of d ''error'' = Some v \<longrightarrow> is_str v)"
  shows "groupResponseResult (PDict rd) (PList ids) ''error'' =
           Inr (if present ''error'' (paired ids rs) = [] then None
                else Some (ItemsGrouping (spec_error_groups (present ''error'' (paired ids rs)))))"
proof -
  let ?ps = "present ''error'' (zip ids rs)"
  have dicts: "\<forall>(reg_id, r) \<in> set (zip ids rs). is_dict r"
    using wf unfolding paired_zip by auto
  have gen: "filtered ''error'' (zip ids rs) = map Inr ?ps"
    using dicts by (rule filtered_dicts)
  have str: "\<forall>(reg_id, v) \<in> set ?ps. is_str v"
  proof (clarify)
    fix reg_id v assume "(reg_id, v) \<in> set ?ps"
    then obtain r where r: "(reg_id, r) \<in> set (zip ids rs)" "subscript r ''error'' = Inr v"
      using present_sound by blast
    with wf obtain d where d: "r = PDict d" "\<forall>v. map_of d ''error'' = Some v \<longrightarrow> is_str v"
      unfolding paired_zip by blast
    with r(2) show "is_str v" by (simp add: subscript_dict_key del: subscript.simps)
  qed
  then have hv: "\<forall>(reg_id, v) \<in> set ?ps. hashable v"
    by (auto simp: hashable_str)
  have spec: "fold (\<lambda>(k, v). append_to v k) ?ps [] = spec_error_groups ?ps"
    using str by (rule fold_append_to)
  have "spec_error_groups ?ps = [] \<longleftrightarrow> ?ps = []"
    by (cases ?ps) (simp_all add: spec_error_groups_def)
  then show ?thesis
    unfolding paired_zip
    by (simp add: groupResponseResult_lists [OF res] gen group_of_hashable [OF hv] spec)
qed

lemma paired_all_present:
  assumes res: "map_of rd ''results'' = Some (PList rs)"
    and key: "key \<in> set [''registration_id'', ''message_id'']"
    and wf: "\<forall>(reg_id, r) \<in> set (paired ids rs).
               is_str reg_id \<and> (\<exists>d. r = PDict d \<and> key \<in> set (keys d))"
    and dist: "distinct (map fst (paired ids rs))"
  shows "groupResponseResult (PDict rd) (PList ids) key =
           Inr (if paired ids rs = [] then None
                else Some (DictGrouping
                  (map (\<lambda>(reg_id, r). (reg_id, value_of key r)) (paired ids rs))))"
proof -
  let ?m = "paired ids rs"
  let ?ps = "map (\<lambda>(reg_id, r). (reg_id, value_of key r)) ?m"
  have wf': "\<forall>(reg_id, r) \<in> set ?m. hashable reg_id \<and> is_dict r"
    using wf by (auto simp: hashable_str)
  have there: "\<forall>(reg_id, r) \<in> set ?m. \<exists>v. subscript r key = Inr v"
  proof (clarify)
    fix reg_id r assume "(reg_id, r) \<in> set ?m"
    with wf obtain d where "r = PDict d" "key \<in> set (keys d)" by blast
    then show "\<exists>v. subscript r key = Inr v"
      using subscript_present [of key d] by simp
  qed
  have all: "present key ?m = ?ps"
    using there by (rule present_every)
  have fst_ps: "map fst ?ps = map fst ?m"
    by (simp add: split_def comp_def)
  have str: "\<forall>k \<in> set (map fst ?ps) \<union> set (map fst []). is_str k"
    unfolding fst_ps using wf by auto
  have d: "distinct (map fst ?ps)"
    unfolding fst_ps by (rule dist)
  have disj: "set (map fst ?ps) \<inter> set (map fst []) = {}"
    by simp
  have "fold (\<lambda>(k, v). assign k v) ?ps [] = [] @ ?ps"
    using d str disj by (rule fold_assign_distinct)
  then show ?thesis
    by (simp add: paired_dict_groups [OF res key wf'] all)
qed

text \<open>
  Claim C6. Recipients and result entries are paired by position: the pairs are the
  recipient and the entry at every index below the length \<open>n\<close> of the shorter sequence, and
  every grouping is built from those pairs alone. For the keys \<^verbatim>\<open>registration_id\<close> and
  \<^verbatim>\<open>message_id\<close>: when every paired entry is a dictionary holding the key and the paired
  recipients are distinct strings, the grouping binds the recipient at each index below
  \<open>n\<close> to the value of the entry at that index (and is absent when \<open>n\<close> is 0); when the
  paired recipients are hashable and the paired entries are dictionaries, it is the
  dictionary assigned, in order, from the pairs whose entry holds the key. For the key
  \<^verbatim>\<open>error\<close>, with string reasons, it is the grouping by reason of the pairs whose entry
  holds an error. What is unmatched on the longer side has no effect: every grouping, and
  the reconciled result, are those of the two sequences cut to length \<open>n\<close>. No error comes
  from the difference in length: when the paired recipients are hashable and the paired
  entries are dictionaries with hashable error reasons, reconciliation returns a result.
\<close>

theorem reconciliation_truncates:
  assumes "map_of rd ''results'' = Some (PList rs)"
    and "n = min (length ids) (length rs)"
  shows "length (paired ids rs) = n
       \<and> (key \<in> set [''registration_id'', ''message_id'']
            \<and> (\<forall>(reg_id, r) \<in> set (paired ids rs).
                  is_str reg_id \<and> (\<exists>d. r = PDict d \<and> key \<in> set (keys d)))
            \<and> distinct (map fst (paired ids rs)) \<longrightarrow>
          groupResponseResult (PDict rd) (PList ids) key =
            Inr (if n = 0 then None
                 else Some (DictGrouping
                   (map (\<lambda>i. (ids ! i, value_of key (rs ! i))) [0..<n]))))
       \<and> (key \<in> set [''registration_id'', ''message_id'']
            \<and> (\<forall>(reg_id, r) \<in> set (paired ids rs). hashable reg_id \<and> is_dict r) \<longrightarrow>
          groupResponseResult (PDict rd) (PList ids) key =
            Inr (if present key (paired ids rs) = [] then None
                 else Some (DictGrouping
                   (fold (\<lambda>(k, v). assign k v) (present key (paired ids rs)) []))))
       \<and> ((\<forall>(reg_id, r) \<in> set (paired ids rs).
              \<exists>d. r = PDict d \<and> (\<forall>v. map_of d ''error'' = Some v \<longrightarrow> is_str v)) \<longrightarrow>
          groupResponseResult (PDict rd) (PList ids) ''error'' =
            Inr (if present ''error'' (paired ids rs) = [] then None
                 else Some (ItemsGrouping
                   (spec_error_groups (present ''error'' (paired ids rs))))))
       \<and> groupResponseResult (PDict rd) (PList ids) key =
           groupResponseResult (PDict (AList.update ''results'' (PList (take n rs)) rd))
             (PList (take n ids)) key
       \<and> (map_of kwargs ''registration_ids'' = Some (PList ids)
            \<and> \<not> truthy (kwargs_get kwargs ''to'') \<longrightarrow>
          handleJSONResponse (PDict rd) kwargs =
            handleJSONResponse (PDict (AList.update ''results'' (PList (take n rs)) rd))
              (AList.update ''registration_ids'' (PList (take n ids)) kwargs))
       \<and> (map_of kwargs ''registration_ids'' = Some (PList ids)
            \<and> \<not> truthy (kwargs_get kwargs ''to'')
            \<and> (\<forall>(reg_id, r) \<in> set (zip ids rs).
                  hashable reg_id \<and> is_dict r
                  \<and> (\<forall>v. subscript r ''error'' = Inr v \<longrightarrow> hashable v)) \<longrightarrow>
          (\<exists>result. handleJSONResponse (PDict rd) kwargs = Inr result))"
proof -
  let ?rd' = "AList.update ''results'' (PList (take n rs)) rd"
  have len: "length (paired ids rs) = n"
    using assms(2) by (simp add: paired_def)
  have shape: "map (\<lambda>(reg_id, r). (reg_id, value_of key r)) (paired ids rs)
               = map (\<lambda>i. (ids ! i, value_of key (rs ! i))) [0..<n]"
    using assms(2) by (simp add: paired_def comp_def)
  have empty: "paired ids rs = [] \<longleftrightarrow> n = 0"
    using len by auto
  have first: "groupResponseResult (PDict rd) (PList ids) key =
            Inr (if n = 0 then None
                 else Some (DictGrouping
                   (map (\<lambda>i. (ids ! i, value_of key (rs ! i))) [0..<n])))"
    if "key \<in> set [''registration_id'', ''message_id'']"
      and "\<forall>(reg_id, r) \<in> set (paired ids rs).
                  is_str reg_id \<and> (\<exists>d. r = PDict d \<and> key \<in> set (keys d))"
      and "distinct (map fst (paired ids rs))"
    using paired_all_present [OF assms(1) that] unfolding shape empty .
  have general: "groupResponseResult (PDict rd) (PList ids) key =
            Inr (if present key (paired ids rs) = [] then None
                 else Some (DictGrouping
                   (fold (\<lambda>(k, v). assign k v) (present key (paired ids rs)) [])))"
    if "key \<in> set [''registration_id'', ''message_id'']"
      and "\<forall>(reg_id, r) \<in> set (paired ids rs). hashable reg_id \<and> is_dict r"
    using assms(1) that by (rule paired_dict_groups)
  have errs: "groupResponseResult (PDict rd) (PList ids) ''error'' =
            Inr (if present ''error'' (paired ids rs) = [] then None
                 else Some (ItemsGrouping
                   (spec_error_groups (present ''error'' (paired ids rs)))))"
    if "\<forall>(reg_id, r) \<in> set (paired ids rs).
              \<exists>d. r = PDict d \<and> (\<forall>v. map_of d ''error'' = Some v \<longrightarrow> is_str v)"
    using assms(1) that by (rule paired_error_groups)
  have trunc: "groupResponseResult (PDict rd) (PList ids) k =
               groupResponseResult (PDict ?rd') (PList (take n ids)) k" for k
    using assms by (rule groupResponseResult_truncate)
  have rec: "reconcile (PDict rd) (PList ids) = reconcile (PDict ?rd') (PList (take n ids))"
    unfolding reconcile_def trunc ..
  have second: "handleJSONResponse (PDict rd) kwargs =
            handleJSONResponse (PDict ?rd') (AList.update ''registration_ids'' (PList (take n ids)) kwargs)"
    if k: "map_of kwargs ''registration_ids'' = Some (PList ids)"
      and t: "\<not> truthy (kwargs_get kwargs ''to'')"
  proof -
    have r1: "recipients kwargs = PList ids"
      using k t by (simp add: recipients_list)
    have "map_of (AList.update ''registration_ids'' (PList (take n ids)) kwargs) ''registration_ids''
            = Some (PList (take n ids))"
      by (simp add: update_conv')
    moreover have "\<not> truthy (kwargs_get (AList.update ''registration_ids'' (PList (take n ids)) kwargs) ''to'')"
      using t by (simp add: kwargs_get_update_other)
    ultimately have r2: "recipients (AList.update ''registration_ids'' (PList (take n ids)) kwargs)
            = PList (take n ids)"
      by (simp add: recipients_list)
    show ?thesis
      by (simp add: handleJSONResponse_reconcile r1 r2 rec)
  qed
  have third: "\<exists>result. handleJSONResponse (PDict rd) kwargs = Inr result"
    if k: "map_of kwargs ''registration_ids'' = Some (PList ids)"
      and t: "\<not> truthy (kwargs_get kwargs ''to'')"
      and wf: "\<forall>(reg_id, r) \<in> set (zip ids rs).
                  hashable reg_id \<and> is_dict r
                  \<and> (\<forall>v. subscript r ''error'' = Inr v \<longrightarrow> hashable v)"
  proof -
    have r1: "recipients kwargs = PList ids"
      using k t by (simp add: recipients_list)
    have wf2: "\<forall>(reg_id, r) \<in> set (zip ids rs). hashable reg_id \<and> is_dict r"
      using wf by auto
    have wf3: "\<forall>(reg_id, r) \<in> set (zip ids rs). \<forall>v. subscript r ''error'' = Inr v \<longrightarrow> hashable v"
      using wf by auto
    obtain g1 where g1: "groupResponseResult (PDict rd) (PList ids) ''error'' = Inr g1"
      using groupResponseResult_total [OF assms(1) wf2, of "''error''"] wf3 by blast
    obtain g2 where g2: "groupResponseResult (PDict rd) (PList ids) ''registration_id'' = Inr g2"
      using groupResponseResult_total [OF assms(1) wf2, of "''registration_id''"] by auto
    obtain g3 where g3: "groupResponseResult (PDict rd) (PList ids) ''message_id'' = Inr g3"
      using groupResponseResult_total [OF assms(1) wf2, of "''message_id''"] by auto
    show ?thesis
      by (simp add: handleJSONResponse_reconcile r1 reconcile_def g1 g2 g3)
  qed
  show ?thesis
    using len first general errs trunc second third by blast
qed

theorem reconciliation_truncates_witness:
  "groupResponseResult
     (PDict [(''results'', PList [PDict [(''message_id'', PStr ''0:a'')]])])
     (PList [PStr ''R1'', PStr ''R2'', PStr ''R3'']) ''message_id''
   = Inr (Some (DictGrouping [(PStr ''R1'', PStr ''0:a'')]))
   \<and> groupResponseResult
        (PDict [(''results'', PList [PDict [(''error'', PStr ''x'')], PDict [(''error'', PStr ''y'')]])])
        (PList [PStr ''R1'']) ''error''
      = Inr (Some (ItemsGrouping [(PStr ''x'', [PStr ''R1''])]))
   \<and> handleJSONResponse
       (PDict [(''results'', PList [PDict [(''message_id'', PStr ''0:a'')]])])
       [(''registration_ids'', PList [PStr ''R1'', PStr ''R2'', PStr ''R3''])]
     = handleJSONResponse
       (PDict [(''results'', PList [PDict [(''message_id'', PStr ''0:a'')]])])
       [(''registration_ids'', PList [PStr ''R1''])]
   \<and> (\<exists>result. handleJSONResponse
         (PDict [(''results'', PList [PDict [(''message_id'', PStr ''0:a'')]])])
         [(''registration_ids'', PList [PStr ''R1'', PStr ''R2'', PStr ''R3''])] = Inr result)"
  using reconciliation_truncates
    [of "[(''results'', PList [PDict [(''message_id'', PStr ''0:a'')]])]"
        "[PDict [(''message_id'', PStr ''0:a'')]]" 1
        "[PStr ''R1'', PStr ''R2'', PStr ''R3'']" "''message_id''"
        "[(''registration_ids'', PList [PStr ''R1'', PStr ''R2'', PStr ''R3''])]"]
    reconciliation_truncates
    [of "[(''results'', PList [PDict [(''error'', PStr ''x'')], PDict [(''error'', PStr ''y'')]])]"
        "[PDict [(''error'', PStr ''x'')], PDict [(''error'', PStr ''y'')]]" 1
        "[PStr ''R1'']" "''error''" "[]"]
  by (simp add: kwargs_get_def paired_def keys_def value_of_def spec_error_groups_def) metis

lemma all_success_groups:
  assumes res: "map_of rd ''results'' = Some (PList rs)"
    and len: "length rs = length names"
    and entries: "\<forall>r \<in> set rs. \<exists>d. r = PDict d \<and> ''message_id'' \<in> set (keys d)
                    \<and> ''error'' \<notin> set (keys d) \<and> ''registration_id'' \<notin> set (keys d)"
  shows "groupResponseResult (PDict rd) (PList (map PStr names)) ''error'' = Inr None"
    and "groupResponseResult (PDict rd) (PList (map PStr names)) ''registration_id'' = Inr None"
    and "groupResponseResult (PDict rd) (PList (map PStr names)) ''message_id'' =
           Inr (if names = [] then None
                else Some (DictGrouping
                  (fold (\<lambda>(k, v). assign k v)
                     (zip (map PStr names) (map (value_of ''message_id'') rs)) [])))"
proof -
  let ?ids = "map PStr names"
  let ?ps = "zip ?ids (map (value_of ''message_id'') rs)"
  have dicts: "\<forall>(reg_id, r) \<in> set (zip ?ids rs). is_dict r" for key
    using entries by (auto dest!: set_zip_rightD)
  have gen: "filtered key (zip ?ids rs) = map Inr (present key (zip ?ids rs))" for key
    using dicts by (rule filtered_dicts)
  have absent: "\<forall>v. subscript r key \<noteq> Inr v"
    if "r \<in> set rs" "key = ''error'' \<or> key = ''registration_id''" for r key
  proof -
    from entries that(1) obtain d where d: "r = PDict d"
      "''error'' \<notin> set (keys d)" "''registration_id'' \<notin> set (keys d)" by blast
    with that(2) have "key \<notin> set (keys d)" by auto
    then have "subscript r key = Inl (KeyError key)"
      unfolding d(1) by (rule subscript_absent)
    then show ?thesis by simp
  qed
  have there: "\<exists>v. subscript r ''message_id'' = Inr v" if "r \<in> set rs" for r
  proof -
    from entries that obtain d where d: "r = PDict d" "''message_id'' \<in> set (keys d)" by blast
    then show ?thesis using subscript_present [of "''message_id''" d] by blast
  qed
  have no_err: "present ''error'' (zip ?ids rs) = []"
    by (rule present_none) (simp add: absent)
  have no_reg: "present ''registration_id'' (zip ?ids rs) = []"
    by (rule present_none) (simp add: absent)
  have all_msg: "present ''message_id'' (zip ?ids rs) = ?ps"
    by (rule present_all) (simp add: there)
  show "groupResponseResult (PDict rd) (PList ?ids) ''error'' = Inr None"
    by (simp add: groupResponseResult_lists [OF res] gen no_err)
  show "groupResponseResult (PDict rd) (PList ?ids) ''registration_id'' = Inr None"
    by (simp add: groupResponseResult_lists [OF res] gen no_reg)
  have hk: "\<forall>(k, v) \<in> set ?ps. hashable k"
    by (auto dest!: set_zip_leftD)
  have str: "\<forall>k \<in> set (map fst ?ps) \<union> set (map fst []). is_str k"
    by (auto dest!: set_zip_leftD)
  have keys: "set (map fst (fold (\<lambda>(k, v). assign k v) ?ps [])) = set (map fst ?ps)"
    using fold_assign_keys [OF str] by simp
  have "map fst ?ps = ?ids"
    using len by simp
  with keys have "fold (\<lambda>(k, v). assign k v) ?ps [] = [] \<longleftrightarrow> names = []"
    by (metis list.map_disc_iff set_empty)
  then show "groupResponseResult (PDict rd) (PList ?ids) ''message_id'' =
           Inr (if names = [] then None
                else Some (DictGrouping (fold (\<lambda>(k, v). assign k v) ?ps [])))"
    by (simp add: groupResponseResult_lists [OF res] gen all_msg dict_of_hashable [OF hk])
qed

text \<open>
  Claim C5. When the recipients (strings) and the result entries have the same length and
  every entry holds a \<^verbatim>\<open>message_id\<close> and neither \<^verbatim>\<open>error\<close> nor \<^verbatim>\<open>registration_id\<close>, the
  reconciled result has no \<^verbatim>\<open>errors\<close> and no \<^verbatim>\<open>canonical\<close> key, and its \<^verbatim>\<open>success\<close>
  mapping has exactly the recipients as keys, each bound to a message id of that recipient
  (for distinct recipients it is the recipients paired with their message ids, in order);
  with no recipient at all the \<^verbatim>\<open>success\<close> key is absent too. In general, no key of a
  reconciled result is bound to an empty grouping.
\<close>

theorem all_success_reconciliation:
  "(map_of rd ''results'' = Some (PList rs) \<and> length rs = length names
      \<and> (\<forall>r \<in> set rs. \<exists>d. r = PDict d \<and> ''message_id'' \<in> set (keys d)
                    \<and> ''error'' \<notin> set (keys d) \<and> ''registration_id'' \<notin> set (keys d))
      \<and> map_of kwargs ''registration_ids'' = Some (PList (map PStr names))
      \<and> (names \<noteq> [] \<or> \<not> truthy (kwargs_get kwargs ''to''))
    \<longrightarrow> (\<exists>result s.
           handleJSONResponse (PDict rd) kwargs = Inr result
         \<and> errors result = None \<and> canonical result = None
         \<and> success result = (if names = [] then None else Some (DictGrouping s))
         \<and> set (keys s) = PStr ` set names
         \<and> set s \<subseteq> set (zip (map PStr names) (map (value_of ''message_id'') rs))
         \<and> (distinct names \<longrightarrow>
               s = zip (map PStr names) (map (value_of ''message_id'') rs))))
   \<and> (handleJSONResponse response kwargs' = Inr result' \<longrightarrow>
        (\<forall>g. errors result' = Some g \<or> canonical result' = Some g \<or> success result' = Some g
              \<longrightarrow> \<not> empty_grouping g))"
proof (intro conjI impI)
  assume "handleJSONResponse response kwargs' = Inr result'"
  then show "\<forall>g. errors result' = Some g \<or> canonical result' = Some g \<or> success result' = Some g
              \<longrightarrow> \<not> empty_grouping g"
    using handleJSONResponse_nonempty by blast
next
  assume asm: "map_of rd ''results'' = Some (PList rs) \<and> length rs = length names
      \<and> (\<forall>r \<in> set rs. \<exists>d. r = PDict d \<and> ''message_id'' \<in> set (keys d)
                    \<and> ''error'' \<notin> set (keys d) \<and> ''registration_id'' \<notin> set (keys d))
      \<and> map_of kwargs ''registration_ids'' = Some (PList (map PStr names))
      \<and> (names \<noteq> [] \<or> \<not> truthy (kwargs_get kwargs ''to''))"
  let ?ids = "map PStr names"
  let ?ps = "zip ?ids (map (value_of ''message_id'') rs)"
  let ?s = "fold (\<lambda>(k, v). assign k v) ?ps []"
  from asm have res: "map_of rd ''results'' = Some (PList rs)"
    and len: "length rs = length names"
    and entries: "\<forall>r \<in> set rs. \<exists>d. r = PDict d \<and> ''message_id'' \<in> set (keys d)
                    \<and> ''error'' \<notin> set (keys d) \<and> ''registration_id'' \<notin> set (keys d)"
    and kw: "map_of kwargs ''registration_ids'' = Some (PList ?ids)"
    and to: "names \<noteq> [] \<or> \<not> truthy (kwargs_get kwargs ''to'')"
    by blast+
  have rcp: "recipients kwargs = PList ?ids"
    using kw to by (intro recipients_list) auto
  note groups = all_success_groups [OF res len entries]
  have result: "handleJSONResponse (PDict rd) kwargs =
      Inr \<lparr>errors = None, canonical = None,
           success = (if names = [] then None else Some (DictGrouping ?s))\<rparr>"
    by (simp add: handleJSONResponse_reconcile rcp reconcile_def groups)
  have str: "\<forall>k \<in> set (map fst ?ps) \<union> set (map fst []). is_str k"
    by (auto dest!: set_zip_leftD)
  have fst_ps: "map fst ?ps = ?ids"
    using len by simp
  have keys: "set (keys ?s) = PStr ` set names"
    using fold_assign_keys [OF str] fst_ps by (simp add: keys_def)
  have sub: "set ?s \<subseteq> set ?ps"
    using fold_assign_keys [OF str] by simp
  have dist: "?s = ?ps" if "distinct names"
  proof -
    have "distinct (map fst ?ps)"
      using that by (simp add: fst_ps distinct_map inj_on_def)
    then have "?s = [] @ ?ps"
      using str by (intro fold_assign_distinct) auto
    then show ?thesis by simp
  qed
  show "\<exists>result s.
           handleJSONResponse (PDict rd) kwargs = Inr result
         \<and> errors result = None \<and> canonical result = None
         \<and> success result = (if names = [] then None else Some (DictGrouping s))
         \<and> set (keys s) = PStr ` set names
         \<and> set s \<subseteq> set ?ps
         \<and> (distinct names \<longrightarrow> s = ?ps)"
    using result keys sub dist
    by (intro exI [of _ "\<lparr>errors = None, canonical = None,
           success = (if names = [] then None else Some (DictGrouping ?s))\<rparr>"] exI [of _ ?s])
       simp
qed

theorem all_success_reconciliation_witness:
  "handleJSONResponse
     (PDict [(''multicast_id'', PInt 7),
             (''results'', PList [PDict [(''message_id'', PStr ''0:a'')],
                                  PDict [(''message_id'', PStr ''0:b'')]])])
     [(''registration_ids'', PList [PStr ''R1'', PStr ''R2'']), (''data'', PDict [])]
   = Inr \<lparr>errors = None, canonical = None,
          success = Some (DictGrouping [(PStr ''R1'', PStr ''0:a''), (PStr ''R2'', PStr ''0:b'')])\<rparr>"
proof -
  have "\<exists>result s.
     handleJSONResponse
       (PDict [(''multicast_id'', PInt 7),
               (''results'', PList [PDict [(''message_id'', PStr ''0:a'')],
                                    PDict [(''message_id'', PStr ''0:b'')]])])
       [(''registration_ids'', PList [PStr ''R1'', PStr ''R2'']), (''data'', PDict [])] = Inr result
     \<and> errors result = None \<and> canonical result = None
     \<and> success result = Some (DictGrouping s)
     \<and> s = [(PStr ''R1'', PStr ''0:a''), (PStr ''R2'', PStr ''0:b'')]"
    using all_success_reconciliation
      [of "[(''multicast_id'', PInt 7),
               (''results'', PList [PDict [(''message_id'', PStr ''0:a'')],
                                    PDict [(''message_id'', PStr ''0:b'')]])]"
          "[PDict [(''message_id'', PStr ''0:a'')], PDict [(''message_id'', PStr ''0:b'')]]"
          "[''R1'', ''R2'']"
          "[(''registration_ids'', PList [PStr ''R1'', PStr ''R2'']), (''data'', PDict [])]"]
    by (simp add: keys_def value_of_def)
  then show ?thesis by auto
qed

lemma error_groups:
  assumes res: "map_of rd ''results'' = Some (PList rs)"
    and entries: "\<forall>r \<in> set rs. \<exists>d. r = PDict d \<and> (\<forall>v. map_of d ''error'' = Some v \<longrightarrow> is_str v)"
  shows "groupResponseResult (PDict rd) (PList ids) ''error'' =
           Inr (if present ''error'' (zip ids rs) = [] then None
                else Some (ItemsGrouping (spec_error_groups (present ''error'' (zip ids rs)))))"
proof -
  let ?ps = "present ''error'' (zip ids rs)"
  have dicts: "\<forall>(reg_id, r) \<in> set (zip ids rs). is_dict r"
    using entries by (auto dest!: set_zip_rightD)
  have gen: "filtered ''error'' (zip ids rs) = map Inr ?ps"
    using dicts by (rule filtered_dicts)
  have str: "\<forall>(reg_id, v) \<in> set ?ps. is_str v"
  proof (clarify)
    fix reg_id v assume "(reg_id, v) \<in> set ?ps"
    then obtain r where r: "(reg_id, r) \<in> set (zip ids rs)" "subscript r ''error'' = Inr v"
      using present_sound by blast
    from r(1) have "r \<in> set rs" by (rule set_zip_rightD)
    with entries obtain d where d: "r = PDict d" "\<forall>v. map_of d ''error'' = Some v \<longrightarrow> is_str v"
      by blast
    with r(2) show "is_str v" by (simp add: subscript_dict_key del: subscript.simps)
  qed
  then have hv: "\<forall>(reg_id, v) \<in> set ?ps. hashable v"
    by (auto simp: hashable_str)
  have spec: "fold (\<lambda>(k, v). append_to v k) ?ps [] = spec_error_groups ?ps"
    using str by (rule fold_append_to)
  have "spec_error_groups ?ps = [] \<longleftrightarrow> ?ps = []"
    by (cases ?ps) (simp_all add: spec_error_groups_def)
  then show ?thesis
    by (simp add: groupResponseResult_lists [OF res] gen group_of_hashable [OF hv] spec)
qed

text \<open>
  Claim C4, as the code has it. When the result entries are dictionaries whose error
  reasons are strings, the \<^verbatim>\<open>error\<close> grouping is the sequence of items of the grouping of
  the specification, not a mapping: pairs of a reason and the list of the recipients
  sharing it, the reasons in first-seen order (the insertion order of the dictionary, as
  Python 3.7 and later keep it) and the recipients of a reason in order; it is absent when
  no paired entry holds an error. For recipients A, B, C with \<^verbatim>\<open>NotRegistered\<close> at A and
  C and a message id at B, \<^verbatim>\<open>errors\<close> is the item sequence \<^verbatim>\<open>[(NotRegistered, [A, C])]\<close>
  and \<^verbatim>\<open>success\<close> is the mapping \<^verbatim>\<open>{B: message id}\<close>.
\<close>

theorem error_grouping:
  "(map_of rd ''results'' = Some (PList rs)
      \<and> (\<forall>r \<in> set rs. \<exists>d. r = PDict d \<and> (\<forall>v. map_of d ''error'' = Some v \<longrightarrow> is_str v))
    \<longrightarrow> groupResponseResult (PDict rd) (PList ids) ''error'' =
           Inr (if present ''error'' (zip ids rs) = [] then None
                else Some (ItemsGrouping (spec_error_groups (present ''error'' (zip ids rs))))))
   \<and> handleJSONResponse
        (PDict [(''results'', PList [PDict [(''error'', PStr ''NotRegistered'')],
                                     PDict [(''message_id'', m)],
                                     PDict [(''error'', PStr ''NotRegistered'')]])])
        [(''registration_ids'', PList [PStr a, PStr b, PStr c])]
      = Inr \<lparr>errors = Some (ItemsGrouping [(PStr ''NotRegistered'', [PStr a, PStr c])]),
             canonical = None,
             success = Some (DictGrouping [(PStr b, m)])\<rparr>"
proof (intro conjI impI)
  assume "map_of rd ''results'' = Some (PList rs)
      \<and> (\<forall>r \<in> set rs. \<exists>d. r = PDict d \<and> (\<forall>v. map_of d ''error'' = Some v \<longrightarrow> is_str v))"
  then show "groupResponseResult (PDict rd) (PList ids) ''error'' =
           Inr (if present ''error'' (zip ids rs) = [] then None
                else Some (ItemsGrouping (spec_error_groups (present ''error'' (zip ids rs)))))"
    using error_groups by blast
next
  show "handleJSONResponse
        (PDict [(''results'', PList [PDict [(''error'', PStr ''NotRegistered'')],
                                     PDict [(''message_id'', m)],
                                     PDict [(''error'', PStr ''NotRegistered'')]])])
        [(''registration_ids'', PList [PStr a, PStr b, PStr c])]
      = Inr \<lparr>errors = Some (ItemsGrouping [(PStr ''NotRegistered'', [PStr a, PStr c])]),
             canonical = None,
             success = Some (DictGrouping [(PStr b, m)])\<rparr>"
    by (simp add: handleJSONResponse_def groupResponseResult_def kwargs_get_def keys_def
        key_eq_def Let_def)
qed

theorem error_grouping_witness:
  "groupResponseResult
     (PDict [(''failure'', PInt 3),
             (''results'', PList [PDict [(''error'', PStr ''NotRegistered'')],
                                  PDict [(''error'', PStr ''InvalidRegistration'')],
                                  PDict [(''message_id'', PStr ''0:c'')],
                                  PDict [(''error'', PStr ''NotRegistered'')]])])
     (PList [PStr ''R1'', PStr ''R2'', PStr ''R3'', PStr ''R4'']) ''error''
   = Inr (Some (ItemsGrouping
       [(PStr ''NotRegistered'', [PStr ''R1'', PStr ''R4'']),
        (PStr ''InvalidRegistration'', [PStr ''R2''])]))"
  using error_grouping
    [of "[(''failure'', PInt 3),
             (''results'', PList [PDict [(''error'', PStr ''NotRegistered'')],
                                  PDict [(''error'', PStr ''InvalidRegistration'')],
                                  PDict [(''message_id'', PStr ''0:c'')],
                                  PDict [(''error'', PStr ''NotRegistered'')]])]"
        "[PDict [(''error'', PStr ''NotRegistered'')],
                                  PDict [(''error'', PStr ''InvalidRegistration'')],
                                  PDict [(''message_id'', PStr ''0:c'')],
                                  PDict [(''error'', PStr ''NotRegistered'')]]"
        "[PStr ''R1'', PStr ''R2'', PStr ''R3'', PStr ''R4'']"]
  by (simp add: spec_error_groups_def)

text \<open>
  Claim C4 as stated fails in the value of \<^verbatim>\<open>errors\<close>: \<^verbatim>\<open>groupResponseResult\<close> returns
  \<^verbatim>\<open>grouping.items()\<close> for the key \<^verbatim>\<open>error\<close>, so for recipients A, B, C the reconciled
  result holds the items of the grouping and is not the result whose \<^verbatim>\<open>errors\<close> is the
  mapping \<^verbatim>\<open>{NotRegistered: [A, C]}\<close>.
\<close>

theorem errors_is_items_counterexample:
  "handleJSONResponse
     (PDict [(''results'', PList [PDict [(''error'', PStr ''NotRegistered'')],
                                  PDict [(''message_id'', PStr ''0:1'')],
                                  PDict [(''error'', PStr ''NotRegistered'')]])])
     [(''registration_ids'', PList [PStr ''A'', PStr ''B'', PStr ''C''])]
   = Inr \<lparr>errors = Some (ItemsGrouping [(PStr ''NotRegistered'', [PStr ''A'', PStr ''C''])]),
          canonical = None,
          success = Some (DictGrouping [(PStr ''B'', PStr ''0:1'')])\<rparr>
   \<and> handleJSONResponse
     (PDict [(''results'', PList [PDict [(''error'', PStr ''NotRegistered'')],
                                  PDict [(''message_id'', PStr ''0:1'')],
                                  PDict [(''error'', PStr ''NotRegistered'')]])])
     [(''registration_ids'', PList [PStr ''A'', PStr ''B'', PStr ''C''])]
   \<noteq> Inr \<lparr>errors = Some (DictGrouping
                     [(PStr ''NotRegistered'', PList [PStr ''A'', PStr ''C''])]),
          canonical = None,
          success = Some (DictGrouping [(PStr ''B'', PStr ''0:1'')])\<rparr>"
  by (simp add: handleJSONResponse_def groupResponseResult_def kwargs_get_def keys_def
      key_eq_def Let_def)

section \<open>Decoding what the JSON payload encodes\<close>








declare digits.simps [simp del]















lemma delim_skip_ws: "delim rest \<Longrightarrow> skip_ws rest = rest"
  by (cases rest) (auto simp: delim_def skip_ws_def is_ws_def)

























text \<open>The JSON body of the end-to-end example of the specification.\<close>

lemma JsonPayload_body_example:
  \<open>JsonPayload_body [(''to'', PStr ''R1''), (''data'', PDict [(''k'', PStr ''v'')])]
     = ''{"to": "R1", "data": {"k": "v"}}''\<close>
  by (simp add: JsonPayload_body_def dumps_str_def)

end
